theory Spec2Isabelle
  imports Complex_Main "HOL-Library.Sublist"
begin

text \<open>
  A model of the group assistant: the similarity measure and the response cache of
  \<open>aiService.js\<close>, the store of \<open>database.js\<close>, and the message and setup handlers of
  \<open>bot.js\<close>.  Asynchronous calls are run one after the other, in program order; what
  the platform, the clock, the completion service and a failing database statement
  answer is an argument of the function that asks.
\<close>

section \<open>Strings\<close>

text \<open>
  JavaScript strings are modelled as \<^typ>\<open>string\<close>, one \<^typ>\<open>char\<close> per code unit, so
  the model covers the code units below 256.  On these \<open>toLowerCase\<close> maps A-Z to a-z
  and the capital letters from U+00C0 to U+00DE, the sign U+00D7 apart, to the letters
  32 places on.  SQLite's \<open>LOWER\<close> and \<open>LIKE\<close> fold the letters A-Z only (\<open>lower_char\<close>).
\<close>

definition lower_char :: "char \<Rightarrow> char" where
  "lower_char c =
     (if 65 \<le> (of_char c :: nat) \<and> (of_char c :: nat) \<le> 90
      then char_of ((of_char c :: nat) + 32) else c)"

definition js_lower_char :: "char \<Rightarrow> char" where
  "js_lower_char c =
     (if (65 \<le> (of_char c :: nat) \<and> (of_char c :: nat) \<le> 90)
         \<or> (192 \<le> (of_char c :: nat) \<and> (of_char c :: nat) \<le> 222 \<and> (of_char c :: nat) \<noteq> 215)
      then char_of ((of_char c :: nat) + 32) else c)"

definition toLowerCase :: "string \<Rightarrow> string" where
  "toLowerCase s = map js_lower_char s"

text \<open>\<open>s.includes(sub)\<close>: \<open>sub\<close> occurs in \<open>s\<close> as a contiguous substring.\<close>

fun str_includes :: "string \<Rightarrow> string \<Rightarrow> bool" where
  "str_includes [] sub = (sub = [])"
| "str_includes (c # cs) sub = (prefix sub (c # cs) \<or> str_includes cs sub)"

section \<open>aiService.js: similarity\<close>

subsection \<open>levenshteinDistance\<close>

text \<open>
  The matrix is an array of rows.  \<open>a[j] = v\<close> overwrites when \<open>j\<close> is below the length
  and appends when \<open>j\<close> is the length; the loops of \<open>levenshteinDistance\<close> never write
  further out than that.
\<close>

definition js_assign :: "'a list \<Rightarrow> nat \<Rightarrow> 'a \<Rightarrow> 'a list" where
  "js_assign xs j v = (if j < length xs then xs[j := v] else xs @ [v])"

definition set_cell :: "nat list list \<Rightarrow> nat \<Rightarrow> nat \<Rightarrow> nat \<Rightarrow> nat list list" where
  "set_cell m i j v = m[i := js_assign (m ! i) j v]"

text \<open>\<open>for (let i = 0; i <= str2.length; i++) matrix[i] = [i];\<close>\<close>

definition init_rows :: "nat \<Rightarrow> nat list list" where
  "init_rows len2 = fold (\<lambda>i m. js_assign m i [i]) [0..<Suc len2] []"

text \<open>\<open>for (let j = 0; j <= str1.length; j++) matrix[0][j] = j;\<close>\<close>

definition init_cols :: "nat \<Rightarrow> nat list list \<Rightarrow> nat list list" where
  "init_cols len1 m = fold (\<lambda>j m. set_cell m 0 j j) [0..<Suc len1] m"

text \<open>The body of the inner loop, for one pair \<open>(i, j)\<close>.\<close>

definition fill_cell :: "string \<Rightarrow> string \<Rightarrow> nat \<Rightarrow> nat \<Rightarrow> nat list list \<Rightarrow> nat list list" where
  "fill_cell str1 str2 i j m =
     (if str2 ! (i - 1) = str1 ! (j - 1)
      then set_cell m i j (m ! (i - 1) ! (j - 1))
      else set_cell m i j
             (min (m ! (i - 1) ! (j - 1) + 1)
                  (min (m ! i ! (j - 1) + 1) (m ! (i - 1) ! j + 1))))"

definition fill_row :: "string \<Rightarrow> string \<Rightarrow> nat \<Rightarrow> nat list list \<Rightarrow> nat list list" where
  "fill_row str1 str2 i m = fold (\<lambda>j m. fill_cell str1 str2 i j m) [1..<Suc (length str1)] m"

definition fill_matrix :: "string \<Rightarrow> string \<Rightarrow> nat list list \<Rightarrow> nat list list" where
  "fill_matrix str1 str2 m = fold (\<lambda>i m. fill_row str1 str2 i m) [1..<Suc (length str2)] m"

definition levenshteinDistance :: "string \<Rightarrow> string \<Rightarrow> nat" where
  "levenshteinDistance str1 str2 =
     (let matrix = init_rows (length str2);
          matrix = init_cols (length str1) matrix;
          matrix = fill_matrix str1 str2 matrix
      in matrix ! length str2 ! length str1)"

subsection \<open>calculateSimilarity\<close>

text \<open>
  A double is the rational it stands for.  The quotient in the last line is one
  floating division, rounded; \<open>fdiv\<close> is that division, a parameter.  \<open>double_div\<close> below is
  the division of doubles, for the sample inputs: \<open>round_double\<close> takes a rational of
  magnitude below \<open>2 ^ 53\<close> to the nearest double (53 bits, exponents down to \<open>- 1074\<close>),
  a tie going to the even neighbour.
\<close>

definition round_half_even :: "rat \<Rightarrow> int" where
  "round_half_even y =
     (let f = \<lfloor>y\<rfloor>; r = y - of_int f
      in if r < 1 / 2 then f else if 1 / 2 < r then f + 1 else if even f then f else f + 1)"

fun binade_shift :: "nat \<Rightarrow> rat \<Rightarrow> nat" where
  "binade_shift 0 x = 0"
| "binade_shift (Suc fuel) x = (if 2 ^ 52 \<le> x then 0 else Suc (binade_shift fuel (2 * x)))"

definition round_double :: "rat \<Rightarrow> rat" where
  "round_double x =
     (if x = 0 then 0
      else (let k = binade_shift 1074 \<bar>x\<bar>
            in sgn x * of_int (round_half_even (\<bar>x\<bar> * 2 ^ k)) / 2 ^ k))"

definition double_div :: "int \<Rightarrow> int \<Rightarrow> rat" where
  "double_div a b = round_double (of_int a / of_int b)"

definition calculateSimilarity :: "(int \<Rightarrow> int \<Rightarrow> rat) \<Rightarrow> string \<Rightarrow> string \<Rightarrow> rat" where
  "calculateSimilarity fdiv str1 str2 =
     (let longer = (if length str1 > length str2 then str1 else str2);
          shorter = (if length str1 > length str2 then str2 else str1)
      in if length longer = 0 then 1
         else (let editDistance = levenshteinDistance longer shorter
               in fdiv (int (length longer) - int editDistance) (int (length longer))))"

text \<open>
  The value the loops leave in \<open>matrix[i][j]\<close>, written as a recursion on the indices.
\<close>

fun lev_cell :: "string \<Rightarrow> string \<Rightarrow> nat \<Rightarrow> nat \<Rightarrow> nat" where
  "lev_cell s1 s2 0 j = j"
| "lev_cell s1 s2 (Suc i) 0 = Suc i"
| "lev_cell s1 s2 (Suc i) (Suc j) =
     (if s2 ! i = s1 ! j then lev_cell s1 s2 i j
      else min (lev_cell s1 s2 i j + 1)
               (min (lev_cell s1 s2 (Suc i) j + 1) (lev_cell s1 s2 i (Suc j) + 1)))"

text \<open>Row \<open>i\<close> of the finished matrix, and the matrix once the rows up to \<open>k\<close> are filled.\<close>

definition lev_row :: "string \<Rightarrow> string \<Rightarrow> nat \<Rightarrow> nat \<Rightarrow> nat list" where
  "lev_row s1 s2 i k = map (lev_cell s1 s2 i) [0..<k]"

definition lev_matrix :: "string \<Rightarrow> string \<Rightarrow> nat \<Rightarrow> nat list list" where
  "lev_matrix s1 s2 k =
     map (\<lambda>i. lev_row s1 s2 i (Suc (length s1))) [0..<Suc k]
     @ map (\<lambda>i. [i]) [Suc k..<Suc (length s2)]"

section \<open>aiService.js: the response cache\<close>

text \<open>
  \<open>conversationCache\<close> is a \<open>Map\<close> from group id to an array of entries, oldest first.
  Times are milliseconds, as \<open>Date.now()\<close> gives them.
\<close>

record cache_entry =
  ce_query :: string
  ce_response :: string
  ce_timestamp :: int

record ai_service =
  conversationCache :: "int \<rightharpoonup> cache_entry list"

definition new_ai_service :: ai_service where
  "new_ai_service = \<lparr>conversationCache = Map.empty\<rparr>"

text \<open>\<open>cacheResponse(groupId, query, response)\<close>; \<open>now\<close> is what \<open>Date.now()\<close> returns.\<close>

definition cacheResponse :: "int \<Rightarrow> ai_service \<Rightarrow> int \<Rightarrow> string \<Rightarrow> string \<Rightarrow> ai_service" where
  "cacheResponse now ai groupId query response =
     (let cache = (case conversationCache ai groupId of None \<Rightarrow> [] | Some c \<Rightarrow> c);
          cache = cache @ [\<lparr>ce_query = toLowerCase query, ce_response = response, ce_timestamp = now\<rparr>];
          cache = (if length cache > 50 then tl cache else cache)
      in ai\<lparr>conversationCache := (conversationCache ai)(groupId \<mapsto> cache)\<rparr>)"

text \<open>
  \<open>getCachedResponse(groupId, query)\<close>: \<open>null\<close> is \<open>None\<close>.  The literal \<open>0.8\<close> is a double,
  a little above 4/5.
\<close>

definition double_0_8 :: rat where
  "double_0_8 = 3602879701896397 / 4503599627370496"

definition getCachedResponse ::
  "(int \<Rightarrow> int \<Rightarrow> rat) \<Rightarrow> int \<Rightarrow> ai_service \<Rightarrow> int \<Rightarrow> string \<Rightarrow> string option" where
  "getCachedResponse fdiv now ai groupId query =
     (case conversationCache ai groupId of
        None \<Rightarrow> None
      | Some cache \<Rightarrow>
          (let normalizedQuery = toLowerCase query;
               match = find (\<lambda>item. calculateSimilarity fdiv (ce_query item) normalizedQuery > double_0_8) cache
           in case match of
                None \<Rightarrow> None
              | Some m \<Rightarrow> if now - ce_timestamp m < 3600000 then Some (ce_response m) else None))"

section \<open>aiService.js: the completion service\<close>

text \<open>
  What the HTTP request does: it throws (time-out after 10 s, transport or status
  error), or it returns a body.  The body may be missing; its \<open>success\<close> flag and its
  \<open>result\<close> are read for truthiness only, so a missing \<open>result\<close> is \<open>None\<close> and an
  empty one is the empty string.
\<close>

record api_data =
  success :: bool
  result :: "string option"

datatype api_outcome = ApiThrows | ApiResponds "api_data option"

definition fallbacks :: "string list" where
  "fallbacks =
     [''I'm having trouble connecting to my AI service right now. Please try again in a moment.'',
      ''Hmm, I couldn't process that right now. Could you rephrase your question?'',
      ''I'm experiencing some technical difficulties. An admin will help you shortly!'',
      ''Sorry, I couldn't understand that. Could you ask in a different way?'']"

text \<open>\<open>getFallbackResponse\<close>; \<open>random\<close> is the value of \<open>Math.random()\<close>, in \<open>[0, 1)\<close>.\<close>

definition getFallbackResponse :: "rat \<Rightarrow> string \<Rightarrow> string" where
  "getFallbackResponse random query = fallbacks ! nat \<lfloor>random * of_nat (length fallbacks)\<rfloor>"

definition enhancedQuery :: "string \<Rightarrow> string \<Rightarrow> string" where
  "enhancedQuery query systemContext =
     (if systemContext \<noteq> []
      then ''Context: '' @ systemContext @ ''\<newline>\<newline>User question: '' @ query
      else query)"

text \<open>
  \<open>getResponse(query, systemContext = '', groupId = null)\<close>.  It returns the text
  (\<open>None\<close> for \<open>null\<close>) and the service with its cache; \<open>if (groupId)\<close> is false for
  \<open>null\<close> and for \<open>0\<close>.
\<close>

definition getResponse ::
  "api_outcome \<Rightarrow> rat \<Rightarrow> int \<Rightarrow> ai_service \<Rightarrow> string \<Rightarrow> string \<Rightarrow> int option
   \<Rightarrow> string option \<times> ai_service" where
  "getResponse api random now ai query systemContext groupId =
     (case api of
        ApiThrows \<Rightarrow> (Some (getFallbackResponse random query), ai)
      | ApiResponds None \<Rightarrow> (None, ai)
      | ApiResponds (Some d) \<Rightarrow>
          (case result d of
             None \<Rightarrow> (None, ai)
           | Some aiResponse \<Rightarrow>
               if success d \<and> aiResponse \<noteq> []
               then (Some aiResponse,
                     case groupId of
                       None \<Rightarrow> ai
                     | Some g \<Rightarrow> if g \<noteq> 0 then cacheResponse now ai g query aiResponse else ai)
               else (None, ai)))"

section \<open>database.js\<close>

text \<open>
  The tables, with the columns the code reads or writes; rows are kept in rowid order.
  \<open>rules\<close> and \<open>triggers\<close> hold JSON arrays and are modelled decoded.  A timestamp is the
  clock value at the statement.  \<open>confidence\<close> is a double: every double is a rational,
  and no double lies between the double nearest to 0.7 and 7/10 (0.5 is a double
  itself), so the comparisons with 0.5 and 0.7 are the rational ones.
\<close>

record group_row =
  g_group_id :: int
  g_group_name :: "string option"
  g_purpose :: "string option"
  g_tone :: "string option"
  g_rules :: "string list option"
  g_triggers :: "string list option"
  g_setup_complete :: bool
  g_paused :: bool

record setup_data =
  sd_purpose :: "string option"
  sd_tone :: "string option"
  sd_rules :: "string list option"
  sd_triggers :: "string list option"

record setup_state_row =
  ss_user_id :: int
  ss_group_id :: int
  ss_step :: string
  ss_data :: setup_data

record message_row =
  m_group_id :: int
  m_user_id :: int
  m_content :: string
  m_message_id :: int
  m_timestamp :: int

record learned_response =
  lr_id :: nat
  lr_group_id :: int
  lr_question :: string
  lr_answer :: string
  lr_confidence :: rat
  lr_learned_from :: string
  lr_usage_count :: nat
  lr_last_used :: "int option"
  lr_created_at :: int

record interaction_row =
  i_group_id :: int
  i_question :: string
  i_answer :: string
  i_source :: string
  i_question_msg_id :: int
  i_answer_msg_id :: int
  i_feedback :: int

record keyword_row =
  k_group_id :: int
  k_keyword :: string
  k_frequency :: nat

record user_stat_row =
  us_group_id :: int
  us_user_id :: int
  us_message_count :: nat
  us_last_active :: int

text \<open>\<open>learned_seq\<close> is the largest id the AUTOINCREMENT key of \<open>learned_responses\<close> has used.\<close>

record database =
  groups :: "group_row list"
  setup_states :: "setup_state_row list"
  messages :: "message_row list"
  learned_responses :: "learned_response list"
  learned_seq :: nat
  interactions :: "interaction_row list"
  keyword_rows :: "keyword_row list"
  user_stats :: "user_stat_row list"

definition empty_db :: database where
  "empty_db = \<lparr>groups = [], setup_states = [], messages = [], learned_responses = [],
               learned_seq = 0, interactions = [], keyword_rows = [], user_stats = []\<rparr>"

text \<open>
  Every method wraps its statements in \<open>try\<close>/\<open>catch\<close>.  A \<open>faults\<close> argument says which
  statement of the call throws (numbered from 0 in program order); the method then
  takes its \<open>catch\<close> branch, and the statements already run stay in effect.
\<close>

type_synonym faults = "nat \<Rightarrow> bool"

definition no_faults :: faults where
  "no_faults = (\<lambda>k. False)"

subsection \<open>SQL string functions\<close>

definition sql_lower :: "string \<Rightarrow> string" where
  "sql_lower s = map lower_char s"

text \<open>
  \<open>text LIKE pattern\<close>: \<open>%\<close> stands for any run of characters, \<open>_\<close> for any one
  character, and letters match without regard to case.
\<close>

fun sql_like :: "string \<Rightarrow> string \<Rightarrow> bool" where
  "sql_like [] t = (t = [])"
| "sql_like (p # ps) t =
     (if p = CHR ''%''
      then sql_like ps t \<or> (case t of [] \<Rightarrow> False | c # ts \<Rightarrow> sql_like (p # ps) ts)
      else (case t of [] \<Rightarrow> False
            | c # ts \<Rightarrow> (p = CHR ''_'' \<or> lower_char p = lower_char c) \<and> sql_like ps ts))"

subsection \<open>Setup states\<close>

definition saveSetupState ::
  "faults \<Rightarrow> database \<Rightarrow> int \<Rightarrow> int \<Rightarrow> string \<Rightarrow> setup_data \<Rightarrow> database" where
  "saveSetupState fault db userId groupId step data =
     (if fault 0 then db
      else if list_ex (\<lambda>r. ss_user_id r = userId) (setup_states db)
      then db\<lparr>setup_states :=
                map (\<lambda>r. if ss_user_id r = userId then r\<lparr>ss_step := step, ss_data := data\<rparr> else r)
                    (setup_states db)\<rparr>
      else db\<lparr>setup_states := setup_states db @
                [\<lparr>ss_user_id = userId, ss_group_id = groupId, ss_step = step, ss_data = data\<rparr>]\<rparr>)"

definition getSetupState :: "faults \<Rightarrow> database \<Rightarrow> int \<Rightarrow> setup_state_row option" where
  "getSetupState fault db userId =
     (if fault 0 then None else find (\<lambda>r. ss_user_id r = userId) (setup_states db))"

definition deleteSetupState :: "faults \<Rightarrow> database \<Rightarrow> int \<Rightarrow> database" where
  "deleteSetupState fault db userId =
     (if fault 0 then db
      else db\<lparr>setup_states := filter (\<lambda>r. ss_user_id r \<noteq> userId) (setup_states db)\<rparr>)"

subsection \<open>Groups\<close>

definition addGroup :: "faults \<Rightarrow> database \<Rightarrow> int \<Rightarrow> string option \<Rightarrow> database" where
  "addGroup fault db groupId groupName =
     (if fault 0 then db
      else if list_ex (\<lambda>g. g_group_id g = groupId) (groups db) then db
      else db\<lparr>groups := groups db @
                [\<lparr>g_group_id = groupId, g_group_name = groupName, g_purpose = None, g_tone = None,
                  g_rules = None, g_triggers = None, g_setup_complete = False, g_paused = False\<rparr>]\<rparr>)"

definition getGroup :: "faults \<Rightarrow> database \<Rightarrow> int \<Rightarrow> group_row option" where
  "getGroup fault db groupId =
     (if fault 0 then None else find (\<lambda>g. g_group_id g = groupId) (groups db))"

definition updateGroupConfig :: "faults \<Rightarrow> database \<Rightarrow> int \<Rightarrow> setup_data \<Rightarrow> database" where
  "updateGroupConfig fault db groupId config =
     (if fault 0 then db
      else db\<lparr>groups :=
                map (\<lambda>g. if g_group_id g = groupId
                          then g\<lparr>g_purpose := sd_purpose config, g_tone := sd_tone config,
                                 g_rules := sd_rules config, g_triggers := sd_triggers config,
                                 g_setup_complete := True\<rparr>
                          else g)
                    (groups db)\<rparr>)"

subsection \<open>Messages\<close>

definition storeMessage :: "faults \<Rightarrow> int \<Rightarrow> database \<Rightarrow> int \<Rightarrow> int \<Rightarrow> string \<Rightarrow> int \<Rightarrow> database" where
  "storeMessage fault now db groupId userId content messageId =
     (if fault 0 then db
      else
        (let db1 = db\<lparr>messages := messages db @
                        [\<lparr>m_group_id = groupId, m_user_id = userId, m_content = content,
                          m_message_id = messageId, m_timestamp = now\<rparr>]\<rparr>
         in if fault 1 then db1
            else if list_ex (\<lambda>u. us_group_id u = groupId \<and> us_user_id u = userId) (user_stats db1)
            then db1\<lparr>user_stats :=
                       map (\<lambda>u. if us_group_id u = groupId \<and> us_user_id u = userId
                                 then u\<lparr>us_message_count := us_message_count u + 1, us_last_active := now\<rparr>
                                 else u)
                           (user_stats db1)\<rparr>
            else db1\<lparr>user_stats := user_stats db1 @
                       [\<lparr>us_group_id = groupId, us_user_id = userId, us_message_count = 1,
                         us_last_active = now\<rparr>]\<rparr>))"

subsection \<open>Learned responses\<close>

text \<open>The row the \<open>SELECT\<close> of \<open>addLearnedResponse\<close> finds: the first in rowid order.\<close>

definition same_question :: "int \<Rightarrow> string \<Rightarrow> learned_response \<Rightarrow> bool" where
  "same_question groupId question r =
     (lr_group_id r = groupId \<and> sql_lower (lr_question r) = sql_lower question)"

definition addLearnedResponse ::
  "faults \<Rightarrow> int \<Rightarrow> database \<Rightarrow> int \<Rightarrow> string \<Rightarrow> string \<Rightarrow> string \<Rightarrow> database" where
  "addLearnedResponse fault now db groupId question answer source =
     (if fault 0 then db
      else
        (case find (same_question groupId question) (learned_responses db) of
           Some existing \<Rightarrow>
             if fault 1 then db
             else db\<lparr>learned_responses :=
                       map (\<lambda>r. if lr_id r = lr_id existing
                                 then r\<lparr>lr_answer := answer, lr_confidence := 1, lr_learned_from := source\<rparr>
                                 else r)
                           (learned_responses db)\<rparr>
         | None \<Rightarrow>
             if fault 1 then db
             else db\<lparr>learned_responses := learned_responses db @
                       [\<lparr>lr_id = Suc (learned_seq db), lr_group_id = groupId, lr_question = question,
                         lr_answer = answer, lr_confidence = 1, lr_learned_from = source,
                         lr_usage_count = 0, lr_last_used = None, lr_created_at = now\<rparr>],
                     learned_seq := Suc (learned_seq db)\<rparr>))"

text \<open>
  \<open>ORDER BY confidence DESC LIMIT 1\<close>: a row of greatest confidence.  SQLite does not
  say which one among equals; the model takes the earliest.
\<close>

fun best_confidence :: "learned_response list \<Rightarrow> learned_response option" where
  "best_confidence [] = None"
| "best_confidence (r # rs) =
     (case best_confidence rs of
        None \<Rightarrow> Some r
      | Some b \<Rightarrow> if lr_confidence b > lr_confidence r then Some b else Some r)"

definition findLearnedResponse :: "faults \<Rightarrow> database \<Rightarrow> int \<Rightarrow> string \<Rightarrow> learned_response option" where
  "findLearnedResponse fault db groupId question =
     (if fault 0 then None
      else
        (case find (\<lambda>r. same_question groupId question r \<and> lr_confidence r > 5 / 10)
                   (learned_responses db) of
           Some response \<Rightarrow> Some response
         | None \<Rightarrow>
             if fault 1 then None
             else best_confidence
                    (filter (\<lambda>r. lr_group_id r = groupId
                                  \<and> sql_like (''%'' @ sql_lower (lr_question r) @ ''%'') (sql_lower question)
                                  \<and> lr_confidence r > 5 / 10)
                            (learned_responses db))))"

definition incrementResponseUsage :: "faults \<Rightarrow> int \<Rightarrow> database \<Rightarrow> nat \<Rightarrow> database" where
  "incrementResponseUsage fault now db responseId =
     (if fault 0 then db
      else db\<lparr>learned_responses :=
                map (\<lambda>r. if lr_id r = responseId
                          then r\<lparr>lr_usage_count := lr_usage_count r + 1, lr_last_used := Some now\<rparr>
                          else r)
                    (learned_responses db)\<rparr>)"

definition updateResponseConfidence :: "faults \<Rightarrow> database \<Rightarrow> nat \<Rightarrow> bool \<Rightarrow> database" where
  "updateResponseConfidence fault db responseId isGood =
     (let adjustment = (if isGood then 1 / 10 else - (15 / 100))
      in if fault 0 then db
         else db\<lparr>learned_responses :=
                   map (\<lambda>r. if lr_id r = responseId
                             then r\<lparr>lr_confidence := max 0 (min 1 (lr_confidence r + adjustment))\<rparr>
                             else r)
                       (learned_responses db)\<rparr>)"

subsection \<open>Interactions\<close>

definition storeInteraction ::
  "faults \<Rightarrow> database \<Rightarrow> int \<Rightarrow> string \<Rightarrow> string \<Rightarrow> string \<Rightarrow> int \<Rightarrow> int \<Rightarrow> database" where
  "storeInteraction fault db groupId question answer source questionMsgId answerMsgId =
     (if fault 0 then db
      else db\<lparr>interactions := interactions db @
                [\<lparr>i_group_id = groupId, i_question = question, i_answer = answer, i_source = source,
                  i_question_msg_id = questionMsgId, i_answer_msg_id = answerMsgId, i_feedback = 0\<rparr>]\<rparr>)"

subsection \<open>Statistics\<close>

record stats =
  totalMessages :: nat
  botResponses :: nat
  learnedResponses :: nat
  activeUsers :: nat
  accuracy :: int
  topTopics :: "(string \<times> nat) list"

datatype db_error = SqlError nat

text \<open>One statement of a \<open>try\<close> block: it throws, or gives its value to the rest.\<close>

definition db_query :: "faults \<Rightarrow> nat \<Rightarrow> 'a \<Rightarrow> ('a \<Rightarrow> db_error + 'b) \<Rightarrow> db_error + 'b" where
  "db_query fault k v rest = (if fault k then Inl (SqlError k) else rest v)"

definition count_where :: "('a \<Rightarrow> bool) \<Rightarrow> 'a list \<Rightarrow> nat" where
  "count_where P xs = length (filter P xs)"

text \<open>
  The body of the \<open>try\<close> of \<open>getGroupStats\<close>.  \<open>round_pct good total\<close> stands for
  \<open>Math.round((good / total) * 100)\<close>, computed on doubles; it is a parameter, and the
  code calls it only under the guard \<open>total > 0\<close>.
\<close>

definition getGroupStats_try ::
  "(nat \<Rightarrow> nat \<Rightarrow> int) \<Rightarrow> faults \<Rightarrow> database \<Rightarrow> int \<Rightarrow> db_error + stats" where
  "getGroupStats_try round_pct fault db groupId =
     db_query fault 0 (count_where (\<lambda>m. m_group_id m = groupId) (messages db)) (\<lambda>totalMessages.
     db_query fault 1 (count_where (\<lambda>i. i_group_id i = groupId) (interactions db)) (\<lambda>botResponses.
     db_query fault 2 (count_where (\<lambda>r. lr_group_id r = groupId) (learned_responses db)) (\<lambda>learnedResponses.
     db_query fault 3 (length (remdups (map us_user_id
                      (filter (\<lambda>u. us_group_id u = groupId) (user_stats db))))) (\<lambda>activeUsers.
     db_query fault 4 (count_where (\<lambda>i. i_group_id i = groupId \<and> i_feedback i = 1) (interactions db)) (\<lambda>goodFeedback.
     db_query fault 5 (count_where (\<lambda>i. i_group_id i = groupId \<and> i_feedback i \<noteq> 0) (interactions db)) (\<lambda>totalFeedback.
     db_query fault 6 (take 5 (sort_key (\<lambda>k. - int (k_frequency k))
                      (filter (\<lambda>k. k_group_id k = groupId) (keyword_rows db)))) (\<lambda>topKeywords.
       (let accuracy = (if totalFeedback > 0 then round_pct goodFeedback totalFeedback else 0)
        in Inr \<lparr>totalMessages = totalMessages, botResponses = botResponses,
                 learnedResponses = learnedResponses, activeUsers = activeUsers,
                 accuracy = accuracy,
                 topTopics = map (\<lambda>k. (k_keyword k, k_frequency k)) topKeywords\<rparr>))))))))"

definition zero_stats :: stats where
  "zero_stats = \<lparr>totalMessages = 0, botResponses = 0, learnedResponses = 0, activeUsers = 0,
                 accuracy = 0, topTopics = []\<rparr>"

definition getGroupStats :: "(nat \<Rightarrow> nat \<Rightarrow> int) \<Rightarrow> faults \<Rightarrow> database \<Rightarrow> int \<Rightarrow> stats" where
  "getGroupStats round_pct fault db groupId =
     (case getGroupStats_try round_pct fault db groupId of
        Inr s \<Rightarrow> s
      | Inl error \<Rightarrow> zero_stats)"

section \<open>bot.js: group messages\<close>

text \<open>
  \<open>bot.js\<close> holds two bot classes.  This section is the first one (its
  \<open>handleGroupMessage\<close>, \<open>shouldRespond\<close> and \<open>generateAIResponse\<close>); the setup dialogue
  and the second \<open>shouldRespond\<close> belong to the second class and come after.
\<close>

record reply_ref =
  rr_text :: "string option"
  rr_from_is_bot :: bool

record message =
  chat_id :: int
  from_id :: int
  msg_text :: string
  message_id :: int
  reply_to_message :: "reply_ref option"

datatype db_call =
  GetGroup | StoreMessage | AddLearnedResponse | FindLearnedResponse
  | IncrementResponseUsage | StoreInteraction | UpdateGroupConfig

text \<open>
  What the outside answers while one event is handled: the clock, the platform calls
  (\<open>None\<close> or \<open>False\<close> when the call throws), the completion service, \<open>Math.random()\<close>,
  and which database statements throw.
\<close>

record env =
  now :: int
  bot_username :: "string option"
  member_status :: "string option"
  chat_action_ok :: bool
  callback_answer_ok :: bool
  sent_message_id :: "int option"
  api :: api_outcome
  random :: rat
  db_fault :: "db_call \<Rightarrow> faults"

text \<open>What leaves the process, in order.\<close>

datatype action =
  SendChatAction int
  | SendMessage int string "int option"
  | ApiRequest string
  | FeedbackButtons int int int

datatype reply = LearnedReply learned_response | AIReply string

text \<open>
  The result of a handler: the stores, what was sent, which branch produced the reply
  that was sent (if one was), and whether the handler ended by an exception it does
  not catch.
\<close>

record outcome =
  out_db :: database
  out_ai :: ai_service
  out_actions :: "action list"
  out_reply :: "reply option"
  out_threw :: bool

definition shouldRespond :: "env \<Rightarrow> message \<Rightarrow> group_row \<Rightarrow> bool" where
  "shouldRespond e msg grp =
     (let text = toLowerCase (msg_text msg)
      in case bot_username e of
           None \<Rightarrow> False
         | Some botUsername \<Rightarrow>
             if str_includes (msg_text msg) (''@'' @ botUsername) then True
             else if (case reply_to_message msg of None \<Rightarrow> False | Some r \<Rightarrow> rr_from_is_bot r) then True
             else if (case g_triggers grp of None \<Rightarrow> False | Some ts \<Rightarrow> ''all'' \<in> set ts)
                     \<and> str_includes text ''?'' then True
             else (case g_triggers grp of
                     Some ts \<Rightarrow> list_ex (\<lambda>trigger. str_includes text (toLowerCase trigger)) ts
                   | None \<Rightarrow> False))"

text \<open>A template literal prints \<open>null\<close> for a NULL column; \<open>join\<close> puts the separator between.\<close>

definition js_str :: "string option \<Rightarrow> string" where
  "js_str v = (case v of None \<Rightarrow> ''null'' | Some s \<Rightarrow> s)"

fun join :: "string \<Rightarrow> string list \<Rightarrow> string" where
  "join sep [] = []"
| "join sep [x] = x"
| "join sep (x # y # ys) = x @ sep @ join sep (y # ys)"

definition systemContext :: "group_row \<Rightarrow> string" where
  "systemContext grp =
     ''You are a helpful AI assistant for a Telegram group.\<newline>Group Purpose: '' @ js_str (g_purpose grp)
     @ ''\<newline>Tone: '' @ js_str (g_tone grp)
     @ ''\<newline>Rules: '' @ (case g_rules grp of Some rs \<Rightarrow> join '', '' rs | None \<Rightarrow> ''None'')
     @ ''\<newline>\<newline>Answer the user's question naturally and helpfully. Keep responses concise (under 200 words).''"

definition addFeedbackButtons :: "int \<Rightarrow> int \<Rightarrow> nat option \<Rightarrow> action" where
  "addFeedbackButtons chatId messageId responseId =
     FeedbackButtons chatId messageId
       (case responseId of
          None \<Rightarrow> messageId
        | Some i \<Rightarrow> if i \<noteq> 0 then int i else messageId)"

text \<open>
  \<open>generateAIResponse\<close>.  Its \<open>getRecentMessages\<close> only reads, and the result is not
  used.  The whole body is inside \<open>try\<close>/\<open>catch\<close>, so a failed send ends it quietly.
  \<open>getResponse\<close> is called with two arguments: no group id.
\<close>

definition generateAIResponse :: "env \<Rightarrow> database \<Rightarrow> ai_service \<Rightarrow> message \<Rightarrow> group_row \<Rightarrow> outcome" where
  "generateAIResponse e db ai msg grp =
     (let chatId = chat_id msg; text = msg_text msg; messageId = message_id msg;
          request = ApiRequest (enhancedQuery text (systemContext grp));
          (aiResponse, ai1) = getResponse (api e) (random e) (now e) ai text (systemContext grp) None
      in case aiResponse of
           None \<Rightarrow> \<lparr>out_db = db, out_ai = ai1, out_actions = [request], out_reply = None, out_threw = False\<rparr>
         | Some r \<Rightarrow>
             if r = [] then
               \<lparr>out_db = db, out_ai = ai1, out_actions = [request], out_reply = None, out_threw = False\<rparr>
             else
               (case sent_message_id e of
                  None \<Rightarrow>
                    \<lparr>out_db = db, out_ai = ai1, out_actions = [request], out_reply = None, out_threw = False\<rparr>
                | Some response_id \<Rightarrow>
                    \<lparr>out_db = storeInteraction (db_fault e StoreInteraction) db chatId text r ''ai''
                                messageId response_id,
                     out_ai = ai1,
                     out_actions = [request, SendMessage chatId r (Some messageId),
                                    addFeedbackButtons chatId response_id None],
                     out_reply = Some (AIReply r), out_threw = False\<rparr>))"

definition learnFromAdmin :: "env \<Rightarrow> database \<Rightarrow> int \<Rightarrow> string \<Rightarrow> string \<Rightarrow> database" where
  "learnFromAdmin e db chatId question answer =
     addLearnedResponse (db_fault e AddLearnedResponse) (now e) db chatId question answer ''admin''"

text \<open>
  \<open>handleGroupMessage\<close>, lines 301 to 316: the learned response is looked up, and
  used when \<open>learnedResponse && learnedResponse.confidence > 0.7\<close>.
\<close>

definition answer_message :: "env \<Rightarrow> database \<Rightarrow> ai_service \<Rightarrow> message \<Rightarrow> group_row \<Rightarrow> outcome" where
  "answer_message e db ai msg grp =
     (let chatId = chat_id msg; text = msg_text msg; messageId = message_id msg;
          learnedResponse = findLearnedResponse (db_fault e FindLearnedResponse) db chatId text
      in case learnedResponse of
           None \<Rightarrow> generateAIResponse e db ai msg grp
         | Some lr \<Rightarrow>
             if lr_confidence lr > 7 / 10 then
               (case sent_message_id e of
                  None \<Rightarrow> \<lparr>out_db = db, out_ai = ai, out_actions = [], out_reply = None, out_threw = True\<rparr>
                | Some response_id \<Rightarrow>
                    \<lparr>out_db = incrementResponseUsage (db_fault e IncrementResponseUsage) (now e) db (lr_id lr),
                     out_ai = ai,
                     out_actions = [SendMessage chatId (lr_answer lr) (Some messageId),
                                    addFeedbackButtons chatId response_id (Some (lr_id lr))],
                     out_reply = Some (LearnedReply lr), out_threw = False\<rparr>)
             else generateAIResponse e db ai msg grp)"

text \<open>The database when the lookup runs: the message is stored, an admin's reply is learned.\<close>

definition isAdmin :: "string \<Rightarrow> bool" where
  "isAdmin status = (status \<in> set [''administrator'', ''creator''])"

definition learn_if_admin :: "env \<Rightarrow> database \<Rightarrow> message \<Rightarrow> database" where
  "learn_if_admin e db msg =
     (case member_status e of
        None \<Rightarrow> db
      | Some status \<Rightarrow>
          (case reply_to_message msg of
             None \<Rightarrow> db
           | Some r \<Rightarrow>
               (case rr_text r of
                  None \<Rightarrow> db
                | Some originalMessage \<Rightarrow>
                    if isAdmin status \<and> originalMessage \<noteq> []
                    then learnFromAdmin e db (chat_id msg) originalMessage (msg_text msg)
                    else db)))"

definition quiet :: "database \<Rightarrow> ai_service \<Rightarrow> outcome" where
  "quiet db ai = \<lparr>out_db = db, out_ai = ai, out_actions = [], out_reply = None, out_threw = False\<rparr>"

definition prepend_action :: "action \<Rightarrow> outcome \<Rightarrow> outcome" where
  "prepend_action a r = r\<lparr>out_actions := a # out_actions r\<rparr>"

definition handleGroupMessage :: "env \<Rightarrow> database \<Rightarrow> ai_service \<Rightarrow> message \<Rightarrow> outcome" where
  "handleGroupMessage e db ai msg =
     (let chatId = chat_id msg; userId = from_id msg; text = msg_text msg; messageId = message_id msg
      in case getGroup (db_fault e GetGroup) db chatId of
           None \<Rightarrow> quiet db ai
         | Some grp \<Rightarrow>
             if \<not> g_setup_complete grp then quiet db ai
             else if g_paused grp then quiet db ai
             else
               (let db1 = storeMessage (db_fault e StoreMessage) (now e) db chatId userId text messageId
                in if \<not> shouldRespond e msg grp then quiet db1 ai
                   else if \<not> chat_action_ok e then (quiet db1 ai)\<lparr>out_threw := True\<rparr>
                   else prepend_action (SendChatAction chatId)
                          (answer_message e (learn_if_admin e db1 msg) ai msg grp)))"

section \<open>bot.js: the second bot class\<close>

subsection \<open>shouldRespond\<close>

text \<open>
  Lines 923 to 941.  Nothing is caught here: \<open>None\<close> is the exception of a failed
  \<open>getMe\<close> or of \<open>includes\<close> on a NULL trigger list.
\<close>

definition shouldRespond2 :: "env \<Rightarrow> message \<Rightarrow> group_row \<Rightarrow> bool option" where
  "shouldRespond2 e msg grp =
     (let text = toLowerCase (msg_text msg)
      in case bot_username e of
           None \<Rightarrow> None
         | Some botUsername \<Rightarrow>
             if str_includes (msg_text msg) (''@'' @ botUsername) then Some True
             else if (case reply_to_message msg of None \<Rightarrow> False | Some r \<Rightarrow> rr_from_is_bot r)
             then Some True
             else (case g_triggers grp of
                     None \<Rightarrow> None
                   | Some ts \<Rightarrow>
                       if ''all'' \<in> set ts then Some True
                       else if str_includes text ''?'' then Some True
                       else Some (list_ex (\<lambda>trigger. str_includes text (toLowerCase trigger)) ts)))"

subsection \<open>The setup dialogue\<close>

text \<open>
  \<open>setupStates\<close> is a \<open>Map\<close> in the memory of the process.  A \<open>Map\<close> tells a number key
  from a string key: \<open>handleCallbackQuery\<close> stores under the string cut out of the
  callback data, \<open>handleMessage\<close> and \<open>handleSetupFlow\<close> look up the number \<open>msg.from.id\<close>.
  \<open>st_groupId\<close> is \<open>None\<close> for NaN.
\<close>

datatype map_key = NumKey int | StrKey string

record setup_session =
  st_step :: string
  st_groupId :: "int option"
  st_data :: setup_data

type_synonym sessions = "map_key \<rightharpoonup> setup_session"

text \<open>The texts sent in the dialogue are fixed literals; they are named, not spelled out.\<close>

datatype prompt =
  OnlyAdderAlert | Redirecting | AskPurpose | AskTone | AskRules | AskTriggers | Summary setup_data

record setup_outcome =
  so_sessions :: sessions
  so_db :: database
  so_sent :: "prompt list"
  so_threw :: bool

record callback_query =
  cq_data :: string
  cq_from_id :: int

text \<open>\<open>s.split(c)\<close>, \<open>s.trim()\<close> and a whole number's \<open>toString()\<close>.\<close>

fun split_on :: "char \<Rightarrow> string \<Rightarrow> string list" where
  "split_on c [] = [] # []"
| "split_on c (x # xs) =
     (if x = c then [] # split_on c xs
      else (case split_on c xs of
              [] \<Rightarrow> [x] # []
            | w # ws \<Rightarrow> (x # w) # ws))"

definition is_space :: "char \<Rightarrow> bool" where
  "is_space c = ((of_char c :: nat) \<in> set [9, 10, 11, 12, 13, 32, 160])"

definition trim :: "string \<Rightarrow> string" where
  "trim s = rev (dropWhile is_space (rev (dropWhile is_space s)))"

function string_of_nat :: "nat \<Rightarrow> string" where
  "string_of_nat n =
     (if n < 10 then [char_of (48 + n)]
      else string_of_nat (n div 10) @ [char_of (48 + n mod 10)])"
  by pat_completeness auto
termination
  by (relation "measure (\<lambda>n. n)") auto

definition js_toString :: "int \<Rightarrow> string" where
  "js_toString i = (if i < 0 then ''-'' @ string_of_nat (nat (- i)) else string_of_nat (nat i))"

text \<open>
  \<open>handleCallbackQuery\<close>, for data starting with \<open>setup_\<close>; the built-in \<open>parseInt\<close> is
  a parameter (\<open>None\<close> for NaN, also on a missing third field).  For other data the
  handler runs its \<open>confirm_\<close> or \<open>feedback_\<close> branch, which have no part in the
  dialogue and are not modelled: the result is \<open>None\<close> there.  \<open>parts ! 1\<close> is in range,
  since the data has an underscore.
\<close>

definition handleCallbackQuery ::
  "(string option \<Rightarrow> int option) \<Rightarrow> env \<Rightarrow> sessions \<Rightarrow> database \<Rightarrow> callback_query
   \<Rightarrow> setup_outcome option" where
  "handleCallbackQuery parseInt e setupStates db q =
     (let data = cq_data q
      in if prefix ''setup_'' data then
           (let parts = split_on CHR ''_'' data;
                userId = parts ! 1;
                groupId = (if 2 < length parts then Some (parts ! 2) else None)
            in if js_toString (cq_from_id q) \<noteq> userId then
                 Some \<lparr>so_sessions = setupStates, so_db = db,
                       so_sent = (if callback_answer_ok e then [OnlyAdderAlert] else []),
                       so_threw = \<not> callback_answer_ok e\<rparr>
               else if \<not> callback_answer_ok e then
                 Some \<lparr>so_sessions = setupStates, so_db = db, so_sent = [], so_threw = True\<rparr>
               else if sent_message_id e = None then
                 Some \<lparr>so_sessions = setupStates, so_db = db, so_sent = [Redirecting], so_threw = True\<rparr>
               else
                 Some \<lparr>so_sessions = setupStates(StrKey userId \<mapsto>
                         \<lparr>st_step = ''purpose'', st_groupId = parseInt groupId,
                          st_data = \<lparr>sd_purpose = None, sd_tone = None, sd_rules = None,
                                     sd_triggers = None\<rparr>\<rparr>),
                       so_db = db, so_sent = [Redirecting, AskPurpose], so_threw = False\<rparr>)
         else None)"

text \<open>
  \<open>handleSetupFlow\<close>.  The session object is changed in place before the prompt is
  sent, so a failed send leaves the change.  In the last step the summary reads
  \<open>state.data.rules.length\<close>, which throws when no rules were stored.
\<close>

definition send_prompt :: "env \<Rightarrow> sessions \<Rightarrow> database \<Rightarrow> prompt \<Rightarrow> setup_outcome" where
  "send_prompt e setupStates db p =
     (if sent_message_id e = None
      then \<lparr>so_sessions = setupStates, so_db = db, so_sent = [], so_threw = True\<rparr>
      else \<lparr>so_sessions = setupStates, so_db = db, so_sent = [p], so_threw = False\<rparr>)"

definition handleSetupFlow :: "env \<Rightarrow> sessions \<Rightarrow> database \<Rightarrow> message \<Rightarrow> setup_outcome" where
  "handleSetupFlow e setupStates db msg =
     (let userId = NumKey (from_id msg); text = msg_text msg
      in case setupStates userId of
           None \<Rightarrow> \<lparr>so_sessions = setupStates, so_db = db, so_sent = [], so_threw = True\<rparr>
         | Some state \<Rightarrow>
             if st_step state = ''purpose'' then
               send_prompt e
                 (setupStates(userId \<mapsto>
                    state\<lparr>st_data := (st_data state)\<lparr>sd_purpose := Some text\<rparr>, st_step := ''tone''\<rparr>))
                 db AskTone
             else if st_step state = ''tone'' then
               send_prompt e
                 (setupStates(userId \<mapsto>
                    state\<lparr>st_data := (st_data state)\<lparr>sd_tone := Some text\<rparr>, st_step := ''rules''\<rparr>))
                 db AskRules
             else if st_step state = ''rules'' then
               send_prompt e
                 (setupStates(userId \<mapsto>
                    state\<lparr>st_data := (st_data state)
                             \<lparr>sd_rules := Some (if toLowerCase text \<noteq> ''none''
                                                 then map trim (split_on CHR '','' text) else [])\<rparr>,
                          st_step := ''triggers''\<rparr>))
                 db AskTriggers
             else if st_step state = ''triggers'' then
               (let data1 = (st_data state)
                              \<lparr>sd_triggers := Some (if toLowerCase text = ''all'' then [''all'']
                                                    else map trim (split_on CHR '','' text))\<rparr>;
                    states1 = setupStates(userId \<mapsto> state\<lparr>st_data := data1\<rparr>);
                    db1 = (case st_groupId state of
                             None \<Rightarrow> db
                           | Some g \<Rightarrow> updateGroupConfig (db_fault e UpdateGroupConfig) db g data1)
                in if sd_rules data1 = None then
                     \<lparr>so_sessions = states1, so_db = db1, so_sent = [], so_threw = True\<rparr>
                   else if sent_message_id e = None then
                     \<lparr>so_sessions = states1, so_db = db1, so_sent = [], so_threw = True\<rparr>
                   else
                     \<lparr>so_sessions = states1(userId := None), so_db = db1,
                      so_sent = [Summary data1], so_threw = False\<rparr>)
             else \<lparr>so_sessions = setupStates, so_db = db, so_sent = [], so_threw = False\<rparr>)"

text \<open>
  What "persisted" means for a session: the \<open>setup_states\<close> table has the user's row,
  with the session's step, group and data.
\<close>

definition session_persisted :: "database \<Rightarrow> int \<Rightarrow> setup_session \<Rightarrow> bool" where
  "session_persisted db userId state =
     (case getSetupState no_faults db userId of
        None \<Rightarrow> False
      | Some row \<Rightarrow> ss_step row = st_step state \<and> Some (ss_group_id row) = st_groupId state
                    \<and> ss_data row = st_data state)"

section \<open>Teaching, as a sequence\<close>

text \<open>One call of \<open>addLearnedResponse\<close> with everything it is given, and a run of such calls.\<close>

record teach =
  t_fault :: faults
  t_now :: int
  t_group :: int
  t_question :: string
  t_answer :: string
  t_source :: string

definition teach_step :: "database \<Rightarrow> teach \<Rightarrow> database" where
  "teach_step db t =
     addLearnedResponse (t_fault t) (t_now t) db (t_group t) (t_question t) (t_answer t) (t_source t)"

fun teach_all :: "database \<Rightarrow> teach list \<Rightarrow> database" where
  "teach_all db [] = db"
| "teach_all db (t # ts) = teach_all (teach_step db t) ts"

text \<open>
  The key of an entry is its group with its question folded to lower case.  \<open>kb_unique\<close>:
  no two entries share a key.  \<open>ids_fresh\<close>: the ids are distinct and none is above the
  AUTOINCREMENT counter.
\<close>

definition kb_key :: "learned_response \<Rightarrow> int \<times> string" where
  "kb_key r = (lr_group_id r, sql_lower (lr_question r))"

definition kb_unique :: "database \<Rightarrow> bool" where
  "kb_unique db = distinct (map kb_key (learned_responses db))"

definition ids_fresh :: "database \<Rightarrow> bool" where
  "ids_fresh db =
     (distinct (map lr_id (learned_responses db))
      \<and> list_all (\<lambda>r. lr_id r \<le> learned_seq db) (learned_responses db))"

text \<open>The entries of a group that answer to a question, whatever its case.\<close>

definition entries_for :: "database \<Rightarrow> int \<Rightarrow> string \<Rightarrow> learned_response list" where
  "entries_for db groupId question = filter (same_question groupId question) (learned_responses db)"

section \<open>The shape the completion service is expected to answer in\<close>


definition is_send :: "action \<Rightarrow> bool" where
  "is_send a = (case a of SendMessage c t r \<Rightarrow> True | _ \<Rightarrow> False)"

definition is_request :: "action \<Rightarrow> bool" where
  "is_request a = (case a of ApiRequest q \<Rightarrow> True | _ \<Rightarrow> False)"

section \<open>Sample inputs\<close>

text \<open>A group set up with the trigger list \<open>["all"]\<close>, and an outside where every call succeeds.\<close>

definition sample_group :: group_row where
  "sample_group =
     \<lparr>g_group_id = - 100, g_group_name = Some ''Players'', g_purpose = Some ''Gaming community'',
      g_tone = Some ''Friendly'', g_rules = Some [''No spam'', ''be respectful''],
      g_triggers = Some [''all''], g_setup_complete = True, g_paused = False\<rparr>"

definition sample_env :: env where
  "sample_env =
     \<lparr>now = 4000001, bot_username = Some ''helperbot'', member_status = Some ''member'',
      chat_action_ok = True, callback_answer_ok = True, sent_message_id = Some 501,
      api = ApiResponds (Some \<lparr>success = True, result = Some ''fresh answer''\<rparr>),
      random = 3 / 4, db_fault = (\<lambda>c. no_faults)\<rparr>"

definition sample_message :: "string \<Rightarrow> message" where
  "sample_message t =
     \<lparr>chat_id = - 100, from_id = 7, msg_text = t, message_id = 42, reply_to_message = None\<rparr>"

text \<open>Two entries for the group: one trusted, one in the band between 0.5 and 0.7.\<close>

definition entry_rules :: learned_response where
  "entry_rules =
     \<lparr>lr_id = 1, lr_group_id = - 100, lr_question = ''What are the rules?'',
      lr_answer = ''No spam, be respectful'', lr_confidence = 1, lr_learned_from = ''manual'',
      lr_usage_count = 3, lr_last_used = Some 900, lr_created_at = 100\<rparr>"

definition entry_ip :: learned_response where
  "entry_ip =
     \<lparr>lr_id = 2, lr_group_id = - 100, lr_question = ''server ip?'',
      lr_answer = ''10.0.0.1'', lr_confidence = 6 / 10, lr_learned_from = ''admin'',
      lr_usage_count = 0, lr_last_used = None, lr_created_at = 200\<rparr>"

definition sample_db :: database where
  "sample_db = empty_db\<lparr>groups := [sample_group], learned_responses := [entry_rules, entry_ip],
                          learned_seq := 2\<rparr>"

text \<open>A cache for the group that holds a fresh answer to \<open>where is the map?\<close>.\<close>

definition sample_ai :: ai_service where
  "sample_ai = cacheResponse 4000000 new_ai_service (- 100) ''Where is the map?'' ''cached answer''"

text \<open>A setup session of user 7 for the group, at its first step, and a teach call.\<close>

definition sample_session :: setup_session where
  "sample_session =
     \<lparr>st_step = ''purpose'', st_groupId = Some (- 100),
      st_data = \<lparr>sd_purpose = None, sd_tone = None, sd_rules = None, sd_triggers = None\<rparr>\<rparr>"

definition sample_sessions :: sessions where
  "sample_sessions = [NumKey 7 \<mapsto> sample_session]"

definition sample_teach :: teach where
  "sample_teach =
     \<lparr>t_fault = no_faults, t_now = 300, t_group = - 100, t_question = ''WHAT ARE THE RULES?'',
      t_answer = ''Ask an admin'', t_source = ''admin''\<rparr>"

text \<open>A teach call for the question of \<open>entry_ip\<close>, whose confidence is 0.6, in capitals.\<close>

definition sample_teach_ip :: teach where
  "sample_teach_ip =
     \<lparr>t_fault = no_faults, t_now = 300, t_group = - 100, t_question = ''SERVER IP?'',
      t_answer = ''See the pinned message'', t_source = ''manual''\<rparr>"

text \<open>
  Two teach calls whose questions differ in the case of one letter outside ASCII:
  U+00C9, the capital E with acute accent, and U+00E9, the small one.
\<close>

definition sample_teach_capital :: teach where
  "sample_teach_capital =
     \<lparr>t_fault = no_faults, t_now = 100, t_group = - 100, t_question = CHR 0xC9 # ''cole?'',
      t_answer = ''Rue Haute 1'', t_source = ''manual''\<rparr>"

definition sample_teach_small :: teach where
  "sample_teach_small =
     \<lparr>t_fault = no_faults, t_now = 200, t_group = - 100, t_question = CHR 0xE9 # ''cole?'',
      t_answer = ''Rue Basse 2'', t_source = ''manual''\<rparr>"

text \<open>What the \<open>UPDATE\<close> of \<open>addLearnedResponse\<close> does to one row.\<close>

definition overwrite :: "nat \<Rightarrow> string \<Rightarrow> string \<Rightarrow> learned_response \<Rightarrow> learned_response" where
  "overwrite i a s r =
     (if lr_id r = i then r\<lparr>lr_answer := a, lr_confidence := 1, lr_learned_from := s\<rparr> else r)"

section \<open>The edit distance of the specification\<close>

text \<open>
  The specification's \<open>levenshtein\<close>, as a second definition beside the code's: the
  edit distance by the usual recurrence over prefixes, the least of a deletion, an
  insertion and a substitution (free when the characters agree).
\<close>

fun wagner_fischer :: "string \<Rightarrow> string \<Rightarrow> nat \<Rightarrow> nat \<Rightarrow> nat" where
  "wagner_fischer s1 s2 0 j = j"
| "wagner_fischer s1 s2 (Suc i) 0 = Suc i"
| "wagner_fischer s1 s2 (Suc i) (Suc j) =
     min (min (wagner_fischer s1 s2 i (Suc j) + 1) (wagner_fischer s1 s2 (Suc i) j + 1))
         (wagner_fischer s1 s2 i j + (if s2 ! i = s1 ! j then 0 else 1))"

definition levenshtein :: "string \<Rightarrow> string \<Rightarrow> nat" where
  "levenshtein a b = wagner_fischer a b (length b) (length a)"

section \<open>Similarity: the loops compute the recurrence\<close>

lemma init_rows_eq: "init_rows n = map (\<lambda>i. [i]) [0..<Suc n]"
proof -
  have "fold (\<lambda>i m. js_assign m i [i]) [0..<k] [] = map (\<lambda>i. [i]) [0..<k]" for k
    by (induction k) (simp_all add: js_assign_def)
  then show ?thesis by (simp only: init_rows_def)
qed

lemma lev_cell_col0: "lev_cell s1 s2 i 0 = i"
  by (cases i) simp_all

lemma lev_cell_sym: "lev_cell s1 s2 i j = lev_cell s2 s1 j i"
  by (induction s1 s2 i j rule: lev_cell.induct)
     (auto simp: lev_cell_col0 min.commute min.left_commute)

lemma lev_cell_refl: "lev_cell s s i i = 0"
  by (induction i) auto

lemma init_cols_eq:
  assumes "m \<noteq> []" "m ! 0 = [0]"
  shows "init_cols n m = m[0 := [0..<Suc n]]"
proof -
  have "fold (\<lambda>j m. set_cell m 0 j j) [0..<Suc k] m = m[0 := [0..<Suc k]]" for k
  proof (induction k)
    case 0
    show ?case using assms by (simp add: set_cell_def js_assign_def list_update_same_conv)
  next
    case (Suc k)
    have "fold (\<lambda>j m. set_cell m 0 j j) [0..<Suc (Suc k)] m
          = set_cell (fold (\<lambda>j m. set_cell m 0 j j) [0..<Suc k] m) 0 (Suc k) (Suc k)"
      by (simp del: upt_Suc add: upt_Suc_append)
    also have "\<dots> = set_cell (m[0 := [0..<Suc k]]) 0 (Suc k) (Suc k)"
      by (simp only: Suc.IH)
    also have "\<dots> = m[0 := [0..<Suc (Suc k)]]"
      using assms by (simp add: set_cell_def js_assign_def)
    finally show ?case .
  qed
  then show ?thesis by (simp only: init_cols_def)
qed

lemma lev_row_nth: "j \<le> n \<Longrightarrow> lev_row s1 s2 a (Suc n) ! j = lev_cell s1 s2 a j"
  by (simp add: lev_row_def del: upt_Suc)

lemma lev_row_0: "lev_row s1 s2 0 n = [0..<n]"
  by (induction n) (simp_all add: lev_row_def)

lemma fill_row_prefix:
  assumes i: "0 < i" "i < length m"
    and prev: "m ! (i - 1) = lev_row s1 s2 (i - 1) (Suc (length s1))"
    and cur: "m ! i = [i]"
    and k: "k \<le> length s1"
  shows "fold (\<lambda>j m. fill_cell s1 s2 i j m) [1..<Suc k] m = m[i := lev_row s1 s2 i (Suc k)]"
  using k
proof (induction k)
  case 0
  have "m[i := [i]] = m" using cur list_update_id [of m i] by simp
  then show ?case by (simp add: lev_row_def lev_cell_col0)
next
  case (Suc k)
  let ?m = "m[i := lev_row s1 s2 i (Suc k)]"
  obtain i' where i': "i = Suc i'" using i by (cases i) auto
  have kk: "k < length s1" using Suc.prems by simp
  have "fold (\<lambda>j m. fill_cell s1 s2 i j m) [1..<Suc (Suc k)] m
        = fill_cell s1 s2 i (Suc k) (fold (\<lambda>j m. fill_cell s1 s2 i j m) [1..<Suc k] m)"
    by (simp del: upt_Suc add: upt_Suc_append)
  also have "\<dots> = fill_cell s1 s2 i (Suc k) ?m"
    using Suc by simp
  also have "\<dots> = m[i := lev_row s1 s2 i (Suc (Suc k))]"
  proof -
    have r1: "?m ! i = lev_row s1 s2 i (Suc k)" using i by simp
    have r0: "?m ! (i - 1) = lev_row s1 s2 (i - 1) (Suc (length s1))"
      using i prev by simp
    have c1: "?m ! (i - 1) ! k = lev_cell s1 s2 (i - 1) k"
      by (simp only: r0) (use kk in \<open>simp add: lev_row_nth\<close>)
    have c2: "?m ! (i - 1) ! Suc k = lev_cell s1 s2 (i - 1) (Suc k)"
      by (simp only: r0) (use kk in \<open>simp add: lev_row_nth\<close>)
    have c3: "?m ! i ! k = lev_cell s1 s2 i k"
      by (simp only: r1) (simp add: lev_row_nth)
    have len: "length (lev_row s1 s2 i (Suc k)) = Suc k" by (simp add: lev_row_def)
    have upd: "set_cell ?m i (Suc k) v = m[i := lev_row s1 s2 i (Suc k) @ [v]]" for v
      unfolding set_cell_def r1 js_assign_def len by simp
    have row: "lev_row s1 s2 i (Suc (Suc k)) = lev_row s1 s2 i (Suc k) @ [lev_cell s1 s2 i (Suc k)]"
      by (simp add: lev_row_def)
    have "fill_cell s1 s2 i (Suc k) ?m = set_cell ?m i (Suc k) (lev_cell s1 s2 i (Suc k))"
      by (simp only: fill_cell_def diff_Suc_1 c1 c2 c3) (simp add: i')
    then show ?thesis by (simp only: upd row)
  qed
  finally show ?case .
qed

lemma fill_row_eq:
  assumes "0 < i" "i < length m"
    and "m ! (i - 1) = lev_row s1 s2 (i - 1) (Suc (length s1))"
    and "m ! i = [i]"
  shows "fill_row s1 s2 i m = m[i := lev_row s1 s2 i (Suc (length s1))]"
  unfolding fill_row_def using fill_row_prefix [OF assms, of "length s1"] by simp

lemma lev_matrix_0: "init_cols (length s1) (init_rows (length s2)) = lev_matrix s1 s2 0"
proof -
  have "init_rows (length s2) = [0] # map (\<lambda>i. [i]) [Suc 0..<Suc (length s2)]"
    unfolding init_rows_eq by (simp add: upt_conv_Cons del: upt_Suc)
  then show ?thesis
    by (simp add: init_cols_eq lev_matrix_def lev_row_0 upt_conv_Cons [of 0 "Suc 0"] del: upt_Suc)
qed

lemma lev_matrix_step:
  assumes "k < length s2"
  shows "fill_row s1 s2 (Suc k) (lev_matrix s1 s2 k) = lev_matrix s1 s2 (Suc k)"
proof -
  let ?m = "lev_matrix s1 s2 k"
  let ?A = "map (\<lambda>i. lev_row s1 s2 i (Suc (length s1))) [0..<Suc k]"
  have lenA: "length ?A = Suc k" by simp
  have tl: "[Suc k..<Suc (length s2)] = Suc k # [Suc (Suc k)..<Suc (length s2)]"
    using assms by (simp add: upt_conv_Cons del: upt_Suc)
  have m: "?m = ?A @ [Suc k] # map (\<lambda>i. [i]) [Suc (Suc k)..<Suc (length s2)]"
    unfolding lev_matrix_def tl by simp
  have len: "Suc k < length ?m" unfolding m by simp
  have prev: "?m ! (Suc k - 1) = lev_row s1 s2 (Suc k - 1) (Suc (length s1))"
    unfolding m by (simp add: nth_append del: upt_Suc)
  have cur: "?m ! Suc k = [Suc k]"
    unfolding m using nth_append_length [of ?A] lenA by (simp del: upt_Suc)
  have "fill_row s1 s2 (Suc k) ?m = ?m[Suc k := lev_row s1 s2 (Suc k) (Suc (length s1))]"
    by (rule fill_row_eq [OF _ len prev cur]) simp
  also have "\<dots> = ?A @ lev_row s1 s2 (Suc k) (Suc (length s1))
                       # map (\<lambda>i. [i]) [Suc (Suc k)..<Suc (length s2)]"
    unfolding m using list_update_length [of ?A] lenA by (simp del: upt_Suc)
  also have "\<dots> = lev_matrix s1 s2 (Suc k)"
    unfolding lev_matrix_def by simp
  finally show ?thesis .
qed

lemma fill_matrix_prefix:
  "k \<le> length s2 \<Longrightarrow>
   fold (\<lambda>i m. fill_row s1 s2 i m) [1..<Suc k] (lev_matrix s1 s2 0) = lev_matrix s1 s2 k"
proof (induction k)
  case 0
  show ?case by simp
next
  case (Suc k)
  have "fold (\<lambda>i m. fill_row s1 s2 i m) [1..<Suc (Suc k)] (lev_matrix s1 s2 0)
        = fill_row s1 s2 (Suc k) (fold (\<lambda>i m. fill_row s1 s2 i m) [1..<Suc k] (lev_matrix s1 s2 0))"
    by (simp del: upt_Suc add: upt_Suc_append)
  also have "\<dots> = fill_row s1 s2 (Suc k) (lev_matrix s1 s2 k)"
    using Suc by simp
  also have "\<dots> = lev_matrix s1 s2 (Suc k)"
    using Suc.prems by (simp add: lev_matrix_step)
  finally show ?case .
qed

lemma levenshteinDistance_cell:
  "levenshteinDistance s1 s2 = lev_cell s1 s2 (length s2) (length s1)"
proof -
  have "fill_matrix s1 s2 (init_cols (length s1) (init_rows (length s2)))
        = lev_matrix s1 s2 (length s2)"
    unfolding fill_matrix_def lev_matrix_0 by (rule fill_matrix_prefix) simp
  moreover have "lev_matrix s1 s2 (length s2) ! length s2 ! length s1
                 = lev_cell s1 s2 (length s2) (length s1)"
  proof -
    have "lev_matrix s1 s2 (length s2) ! length s2 = lev_row s1 s2 (length s2) (Suc (length s1))"
      unfolding lev_matrix_def by (simp add: nth_append del: upt_Suc)
    then show ?thesis by (simp add: lev_row_nth)
  qed
  ultimately show ?thesis by (simp add: levenshteinDistance_def Let_def)
qed

lemma levenshteinDistance_sym: "levenshteinDistance a b = levenshteinDistance b a"
  unfolding levenshteinDistance_cell by (rule lev_cell_sym)

lemma levenshteinDistance_refl: "levenshteinDistance a a = 0"
  unfolding levenshteinDistance_cell by (rule lev_cell_refl)

lemma wagner_fischer_col0: "wagner_fischer s1 s2 i 0 = i"
  by (cases i) simp_all

lemma wagner_fischer_down: "wagner_fischer s1 s2 (Suc i) j \<le> wagner_fischer s1 s2 i j + 1"
  by (cases j) (simp_all add: wagner_fischer_col0)

lemma wagner_fischer_right: "wagner_fischer s1 s2 i (Suc j) \<le> wagner_fischer s1 s2 i j + 1"
  by (cases i) simp_all

lemma wagner_fischer_up: "wagner_fischer s1 s2 i j \<le> wagner_fischer s1 s2 (Suc i) j + 1"
proof (induction j)
  case 0
  show ?case by (simp add: wagner_fischer_col0)
next
  case (Suc j)
  have a: "wagner_fischer s1 s2 i (Suc j) \<le> wagner_fischer s1 s2 i j + 1"
    by (rule wagner_fischer_right)
  show ?case using a Suc by (simp add: min_def)
qed

lemma wagner_fischer_left: "wagner_fischer s1 s2 i j \<le> wagner_fischer s1 s2 i (Suc j) + 1"
proof (induction i)
  case 0
  show ?case by simp
next
  case (Suc i)
  have a: "wagner_fischer s1 s2 (Suc i) j \<le> wagner_fischer s1 s2 i j + 1"
    by (rule wagner_fischer_down)
  show ?case using a Suc by (simp add: min_def)
qed

lemma lev_cell_wagner_fischer: "lev_cell s1 s2 i j = wagner_fischer s1 s2 i j"
proof (induction s1 s2 i j rule: lev_cell.induct)
  case (1 s1 s2 j)
  show ?case by simp
next
  case (2 s1 s2 i)
  show ?case by simp
next
  case (3 s1 s2 i j)
  show ?case
  proof (cases "s2 ! i = s1 ! j")
    case True
    have "wagner_fischer s1 s2 i j \<le> wagner_fischer s1 s2 i (Suc j) + 1"
      "wagner_fischer s1 s2 i j \<le> wagner_fischer s1 s2 (Suc i) j + 1"
      by (rule wagner_fischer_left, rule wagner_fischer_up)
    then show ?thesis using True 3 by (simp add: min_def)
  next
    case False
    then show ?thesis using 3 by (simp add: min_def)
  qed
qed

lemma levenshteinDistance_levenshtein: "levenshteinDistance a b = levenshtein a b"
  by (simp add: levenshteinDistance_cell lev_cell_wagner_fischer levenshtein_def)

lemma calculateSimilarity_quotient:
  "calculateSimilarity fdiv a b =
     (if a = [] \<and> b = [] then 1
      else fdiv (int (max (length a) (length b)) - int (levenshtein a b)) (int (max (length a) (length b))))"
proof (cases "length a > length b")
  case True
  then show ?thesis
    by (auto simp: calculateSimilarity_def Let_def max_def levenshteinDistance_levenshtein)
next
  case False
  then show ?thesis
    by (auto simp: calculateSimilarity_def Let_def max_def levenshteinDistance_levenshtein
                   levenshteinDistance_sym [of b a, unfolded levenshteinDistance_levenshtein])
qed

lemma calculateSimilarity_sym: "calculateSimilarity fdiv a b = calculateSimilarity fdiv b a"
  by (cases "length a = length b")
     (auto simp: calculateSimilarity_def Let_def levenshteinDistance_sym [of b a])

lemma calculateSimilarity_same:
  "(\<And>n. 0 < n \<Longrightarrow> fdiv n n = 1) \<Longrightarrow> calculateSimilarity fdiv a a = 1"
  by (simp add: calculateSimilarity_def Let_def levenshteinDistance_refl)

lemma round_double_1: "round_double 1 = 1"
  by code_simp

lemma double_div_same: "0 < n \<Longrightarrow> double_div n n = 1"
  by (simp add: double_div_def round_double_1)

lemma double_div_quotient:
  "0 < n \<Longrightarrow> double_div (int n - int d) (int n) = round_double (1 - of_nat d / of_nat n)"
  by (simp add: double_div_def diff_divide_distrib)

lemma levenshtein_abc_abd: "levenshtein ''abc'' ''abd'' = 1"
  by code_simp

lemma double_div_2_3: "double_div 2 3 = 6004799503160661 / 9007199254740992"
  by code_simp

text \<open>
  C8, as amended.  For all strings \<open>a\<close> and \<open>b\<close>, \<open>calculateSimilarity a b\<close> is \<open>1\<close> when both
  are empty and otherwise the one floating quotient of \<open>max - levenshtein a b\<close> by \<open>max\<close>,
  where \<open>max\<close> is the greater length and \<open>levenshtein\<close> is the edit distance of the
  specification, which the loops of \<open>levenshteinDistance\<close> compute; with the division of
  doubles that is the double nearest to \<open>1 - levenshtein a b / max\<close>.  It is symmetric,
  and \<open>calculateSimilarity a a = 1\<close> for a division that gives \<open>n / n = 1\<close>.
\<close>

theorem similarity_formula:
  assumes "\<And>n. 0 < n \<Longrightarrow> fdiv n n = 1"
  shows "calculateSimilarity fdiv a b =
     (if a = [] \<and> b = [] then 1
      else fdiv (int (max (length a) (length b)) - int (levenshtein a b)) (int (max (length a) (length b))))
   \<and> calculateSimilarity double_div a b =
     (if a = [] \<and> b = [] then 1
      else round_double (1 - of_nat (levenshtein a b) / of_nat (max (length a) (length b))))
   \<and> levenshteinDistance a b = levenshtein a b
   \<and> calculateSimilarity fdiv a b = calculateSimilarity fdiv b a
   \<and> calculateSimilarity fdiv a a = 1"
proof (intro conjI)
  show "calculateSimilarity fdiv a b =
     (if a = [] \<and> b = [] then 1
      else fdiv (int (max (length a) (length b)) - int (levenshtein a b)) (int (max (length a) (length b))))"
    by (rule calculateSimilarity_quotient)
  show "calculateSimilarity double_div a b =
     (if a = [] \<and> b = [] then 1
      else round_double (1 - of_nat (levenshtein a b) / of_nat (max (length a) (length b))))"
  proof (cases "a = [] \<and> b = []")
    case True
    then show ?thesis by (simp add: calculateSimilarity_quotient)
  next
    case False
    then have "0 < max (length a) (length b)" by (auto simp: max_def)
    then show ?thesis
      using False by (simp only: calculateSimilarity_quotient double_div_quotient if_False)
  qed
  show "levenshteinDistance a b = levenshtein a b"
    by (rule levenshteinDistance_levenshtein)
  show "calculateSimilarity fdiv a b = calculateSimilarity fdiv b a"
    by (rule calculateSimilarity_sym)
  show "calculateSimilarity fdiv a a = 1"
    using assms by (rule calculateSimilarity_same)
qed

theorem similarity_formula_witness:
  "calculateSimilarity double_div ''abc'' ''abd'' = 6004799503160661 / 9007199254740992
   \<and> calculateSimilarity double_div ''abc'' ''abd'' = round_double (1 - 1 / 3)
   \<and> calculateSimilarity double_div ''abc'' ''abd'' = calculateSimilarity double_div ''abd'' ''abc''
   \<and> calculateSimilarity double_div ''abc'' ''abc'' = 1"
proof -
  have d: "\<And>n. 0 < n \<Longrightarrow> double_div n n = 1" by (rule double_div_same)
  note t = similarity_formula [of double_div "''abc''" "''abd''", OF d]
  have q: "calculateSimilarity double_div ''abc'' ''abd'' = double_div 2 3"
    using t by (simp add: levenshtein_abc_abd)
  have r: "calculateSimilarity double_div ''abc'' ''abd'' = round_double (1 - 1 / 3)"
    using t by (simp add: levenshtein_abc_abd)
  have s: "calculateSimilarity double_div ''abc'' ''abd'' = calculateSimilarity double_div ''abd'' ''abc''"
    using t by blast
  have i: "calculateSimilarity double_div ''abc'' ''abc'' = 1"
    using similarity_formula [of double_div "''abc''" "''abc''", OF d] by blast
  show ?thesis using q r s i by (simp add: double_div_2_3)
qed

text \<open>
  C8, as stated, fails.  For \<open>abc\<close> and \<open>abd\<close> the distance is 1 and the length 3.  The code
  divides 2 by 3 and returns the double nearest to 2/3, which is below 2/3; the
  expression of the claim, \<open>1 - 1 / 3\<close> in doubles, is the next double up; neither is 2/3.
\<close>

theorem similarity_rounding_counterexample:
  "levenshtein ''abc'' ''abd'' = 1
   \<and> calculateSimilarity double_div ''abc'' ''abd'' = 6004799503160661 / 9007199254740992
   \<and> round_double (1 - double_div 1 3) = 6004799503160662 / 9007199254740992
   \<and> calculateSimilarity double_div ''abc'' ''abd'' \<noteq> round_double (1 - double_div 1 3)
   \<and> calculateSimilarity double_div ''abc'' ''abd'' \<noteq> 1 - 1 / 3"
proof -
  have q: "calculateSimilarity double_div ''abc'' ''abd'' = 6004799503160661 / 9007199254740992"
    by (simp add: calculateSimilarity_quotient levenshtein_abc_abd double_div_2_3)
  have e: "round_double (1 - double_div 1 3) = 6004799503160662 / 9007199254740992"
    by code_simp
  show ?thesis
    unfolding q e by (simp add: levenshtein_abc_abd)
qed

section \<open>Group messages: which branch answers\<close>









section \<open>The trigger decision\<close>

lemma shouldRespond_all_only:
  assumes "g_triggers grp = Some [''all'']" "bot_username e = Some u"
    and "\<not> str_includes (msg_text msg) (''@'' @ u)"
    and "reply_to_message msg = None \<or> (\<exists>r. reply_to_message msg = Some r \<and> \<not> rr_from_is_bot r)"
  shows "shouldRespond e msg grp =
           (str_includes (toLowerCase (msg_text msg)) ''?''
            \<or> str_includes (toLowerCase (msg_text msg)) (toLowerCase ''all''))"
  using assms by (auto simp: shouldRespond_def Let_def)

text \<open>
  C2.  The group's trigger list is exactly \<open>["all"]\<close>; the message \<open>hello all\<close> has no
  mention of the bot, is not a reply and has no question mark.  The first
  \<open>shouldRespond\<close> answers it all the same, because the sentinel is then tried as a
  keyword; the second \<open>shouldRespond\<close> answers every message of such a group.
\<close>

theorem shouldRespond_all_without_question:
  "g_triggers sample_group = Some [''all'']
   \<and> bot_username sample_env = Some ''helperbot''
   \<and> \<not> str_includes (msg_text (sample_message ''hello all'')) ''@helperbot''
   \<and> reply_to_message (sample_message ''hello all'') = None
   \<and> \<not> str_includes (toLowerCase (msg_text (sample_message ''hello all''))) ''?''
   \<and> shouldRespond sample_env (sample_message ''hello all'') sample_group = True
   \<and> shouldRespond2 sample_env (sample_message ''hello'') sample_group = Some True"
  by code_simp

section \<open>The cache\<close>

lemma double_0_8_below_1: "double_0_8 < 1"
  by (simp add: double_0_8_def)

lemma calculateSimilarity_double_same: "calculateSimilarity double_div a a = 1"
  by (rule calculateSimilarity_same) (rule double_div_same)

lemma toLowerCase_Hello: "toLowerCase ''Hello'' = ''hello''"
  by code_simp

lemma toLowerCase_hello: "toLowerCase ''hello'' = ''hello''"
  by code_simp

lemma getCachedResponse_first_similar:
  "getCachedResponse fdiv tm ai g q =
     (case conversationCache ai g of
        None \<Rightarrow> None
      | Some cache \<Rightarrow>
          (case find (\<lambda>item. calculateSimilarity fdiv (ce_query item) (toLowerCase q) > double_0_8) cache of
             None \<Rightarrow> None
           | Some m \<Rightarrow> if tm - ce_timestamp m < 3600000 then Some (ce_response m) else None))"
  by (simp add: getCachedResponse_def Let_def split: option.splits)

lemma getCachedResponse_fresh:
  assumes "getCachedResponse fdiv tm ai g q = Some a"
  shows "\<exists>cache m. conversationCache ai g = Some cache \<and> m \<in> set cache \<and> ce_response m = a
     \<and> calculateSimilarity fdiv (ce_query m) (toLowerCase q) > double_0_8 \<and> tm - ce_timestamp m < 3600000"
proof -
  let ?P = "\<lambda>item. calculateSimilarity fdiv (ce_query item) (toLowerCase q) > double_0_8"
  obtain cache m where c: "conversationCache ai g = Some cache"
    and f: "find ?P cache = Some m"
    and r: "tm - ce_timestamp m < 3600000" "ce_response m = a"
    using assms
    by (auto simp: getCachedResponse_first_similar split: option.splits if_splits)
  obtain i where "i < length cache" "?P (cache ! i)" "m = cache ! i"
    using f unfolding find_Some_iff by blast
  then have "m \<in> set cache" "?P m" by simp_all
  then show ?thesis using c r by blast
qed

text \<open>
  C4.  Two answers to \<open>hello\<close> are cached for group 1, at times 0 and 4000000.  At time
  4000001 the second entry is similar enough and younger than an hour, but the lookup
  stops at the first similar entry, finds it too old, and returns nothing.
\<close>

theorem getCachedResponse_stale_first_match:
  "getCachedResponse double_div 4000001
     (cacheResponse 4000000 (cacheResponse 0 new_ai_service 1 ''Hello'' ''old'') 1 ''hello'' ''new'')
     1 ''hello'' = None
   \<and> conversationCache
        (cacheResponse 4000000 (cacheResponse 0 new_ai_service 1 ''Hello'' ''old'') 1 ''hello'' ''new'') 1
      = Some [\<lparr>ce_query = ''hello'', ce_response = ''old'', ce_timestamp = 0\<rparr>,
              \<lparr>ce_query = ''hello'', ce_response = ''new'', ce_timestamp = 4000000\<rparr>]
   \<and> calculateSimilarity double_div ''hello'' (toLowerCase ''hello'') > double_0_8
   \<and> (4000001 :: int) - 4000000 < 3600000"
  by (simp add: getCachedResponse_def cacheResponse_def new_ai_service_def
        toLowerCase_Hello toLowerCase_hello calculateSimilarity_double_same double_0_8_below_1 Let_def)

section \<open>The pipeline and the cache\<close>

lemma getResponse_no_group:
  "getResponse a r n ai q c None = (fst (getResponse a r n ai' q c None), ai)"
  by (simp add: getResponse_def split: api_outcome.splits option.splits)

lemma generateAIResponse_cache:
  "out_ai (generateAIResponse e db ai msg grp) = ai
   \<and> out_db (generateAIResponse e db ai msg grp) = out_db (generateAIResponse e db ai' msg grp)
   \<and> out_actions (generateAIResponse e db ai msg grp) = out_actions (generateAIResponse e db ai' msg grp)
   \<and> out_reply (generateAIResponse e db ai msg grp) = out_reply (generateAIResponse e db ai' msg grp)
   \<and> out_threw (generateAIResponse e db ai msg grp) = out_threw (generateAIResponse e db ai' msg grp)"
proof -
  obtain x where x: "getResponse (api e) (random e) (now e) ai (msg_text msg) (systemContext grp) None = (x, ai)"
    and x': "getResponse (api e) (random e) (now e) ai' (msg_text msg) (systemContext grp) None = (x, ai')"
    using getResponse_no_group [of "api e" "random e" "now e" ai "msg_text msg" "systemContext grp" ai']
      getResponse_no_group [of "api e" "random e" "now e" ai' "msg_text msg" "systemContext grp" ai']
    by (metis fst_conv)
  show ?thesis
    by (simp add: generateAIResponse_def Let_def x x' split: option.splits)
qed

lemma answer_message_cache:
  "out_ai (answer_message e db ai msg grp) = ai
   \<and> out_db (answer_message e db ai msg grp) = out_db (answer_message e db ai' msg grp)
   \<and> out_actions (answer_message e db ai msg grp) = out_actions (answer_message e db ai' msg grp)
   \<and> out_reply (answer_message e db ai msg grp) = out_reply (answer_message e db ai' msg grp)
   \<and> out_threw (answer_message e db ai msg grp) = out_threw (answer_message e db ai' msg grp)"
  using generateAIResponse_cache [of e db ai msg grp ai']
  by (simp add: answer_message_def Let_def split: option.splits)

lemma generateAIResponse_first_action:
  "take 1 (out_actions (generateAIResponse e db ai msg grp))
   = [ApiRequest (enhancedQuery (msg_text msg) (systemContext grp))]"
  by (simp add: generateAIResponse_def Let_def split: prod.splits option.splits)

lemma answer_message_without_trust:
  assumes "findLearnedResponse (db_fault e FindLearnedResponse) db (chat_id msg) (msg_text msg) = None
           \<or> (\<exists>r. findLearnedResponse (db_fault e FindLearnedResponse) db (chat_id msg) (msg_text msg) = Some r
                    \<and> lr_confidence r \<le> 7 / 10)"
  shows "answer_message e db ai msg grp = generateAIResponse e db ai msg grp"
  using assms by (auto simp: answer_message_def Let_def)

lemma handleGroupMessage_without_trust:
  assumes "getGroup (db_fault e GetGroup) db (chat_id msg) = Some grp"
    and "g_setup_complete grp" "\<not> g_paused grp" "shouldRespond e msg grp" "chat_action_ok e"
    and "findLearnedResponse (db_fault e FindLearnedResponse)
           (learn_if_admin e (storeMessage (db_fault e StoreMessage) (now e) db (chat_id msg) (from_id msg)
                (msg_text msg) (message_id msg)) msg)
           (chat_id msg) (msg_text msg) = None
         \<or> (\<exists>r. findLearnedResponse (db_fault e FindLearnedResponse)
                  (learn_if_admin e (storeMessage (db_fault e StoreMessage) (now e) db (chat_id msg) (from_id msg)
                       (msg_text msg) (message_id msg)) msg)
                  (chat_id msg) (msg_text msg) = Some r
                \<and> lr_confidence r \<le> 7 / 10)"
  shows "handleGroupMessage e db ai msg =
           prepend_action (SendChatAction (chat_id msg))
             (generateAIResponse e
                (learn_if_admin e (storeMessage (db_fault e StoreMessage) (now e) db (chat_id msg) (from_id msg)
                     (msg_text msg) (message_id msg)) msg)
                ai msg grp)"
  using assms(1-5) answer_message_without_trust [OF assms(6), of ai grp]
  by (simp add: handleGroupMessage_def Let_def)

lemma take_2_prepend:
  "take 1 (out_actions r) = [x] \<Longrightarrow> take 2 (out_actions (prepend_action a r)) = [a, x]"
  by (cases "out_actions r") (simp_all add: prepend_action_def)

text \<open>
  C3, as amended.  The handler never reads or writes the cache: it hands the service
  back as it got it, and everything else it does is the same whatever the cache holds.
  When the lookup returns nothing, or an entry whose confidence is not above 0.7, the
  answering part is \<open>generateAIResponse\<close>, and a handler that got that far sends the
  typing notice and then, as the next thing, the request to the completion service.
\<close>

theorem pipeline_ignores_cache:
  "out_ai (handleGroupMessage e db ai msg) = ai
   \<and> out_db (handleGroupMessage e db ai msg) = out_db (handleGroupMessage e db ai' msg)
   \<and> out_actions (handleGroupMessage e db ai msg) = out_actions (handleGroupMessage e db ai' msg)
   \<and> out_reply (handleGroupMessage e db ai msg) = out_reply (handleGroupMessage e db ai' msg)
   \<and> out_threw (handleGroupMessage e db ai msg) = out_threw (handleGroupMessage e db ai' msg)
   \<and> (getGroup (db_fault e GetGroup) db (chat_id msg) = Some grp
        \<and> g_setup_complete grp \<and> \<not> g_paused grp \<and> shouldRespond e msg grp \<and> chat_action_ok e
        \<and> (findLearnedResponse (db_fault e FindLearnedResponse)
               (learn_if_admin e (storeMessage (db_fault e StoreMessage) (now e) db (chat_id msg) (from_id msg)
                    (msg_text msg) (message_id msg)) msg)
               (chat_id msg) (msg_text msg) = None
             \<or> (\<exists>r. findLearnedResponse (db_fault e FindLearnedResponse)
                      (learn_if_admin e (storeMessage (db_fault e StoreMessage) (now e) db (chat_id msg)
                           (from_id msg) (msg_text msg) (message_id msg)) msg)
                      (chat_id msg) (msg_text msg) = Some r
                    \<and> lr_confidence r \<le> 7 / 10))
      \<longrightarrow> handleGroupMessage e db ai msg =
            prepend_action (SendChatAction (chat_id msg))
              (generateAIResponse e
                 (learn_if_admin e (storeMessage (db_fault e StoreMessage) (now e) db (chat_id msg) (from_id msg)
                      (msg_text msg) (message_id msg)) msg)
                 ai msg grp)
          \<and> take 2 (out_actions (handleGroupMessage e db ai msg))
              = [SendChatAction (chat_id msg), ApiRequest (enhancedQuery (msg_text msg) (systemContext grp))])"
proof -
  have ind: "out_ai (handleGroupMessage e db ai msg) = ai
   \<and> out_db (handleGroupMessage e db ai msg) = out_db (handleGroupMessage e db ai' msg)
   \<and> out_actions (handleGroupMessage e db ai msg) = out_actions (handleGroupMessage e db ai' msg)
   \<and> out_reply (handleGroupMessage e db ai msg) = out_reply (handleGroupMessage e db ai' msg)
   \<and> out_threw (handleGroupMessage e db ai msg) = out_threw (handleGroupMessage e db ai' msg)"
    using answer_message_cache
    by (simp add: handleGroupMessage_def Let_def quiet_def prepend_action_def split: option.splits)
  show ?thesis
  proof (intro conjI impI)
    assume h: "getGroup (db_fault e GetGroup) db (chat_id msg) = Some grp
        \<and> g_setup_complete grp \<and> \<not> g_paused grp \<and> shouldRespond e msg grp \<and> chat_action_ok e
        \<and> (findLearnedResponse (db_fault e FindLearnedResponse)
               (learn_if_admin e (storeMessage (db_fault e StoreMessage) (now e) db (chat_id msg) (from_id msg)
                    (msg_text msg) (message_id msg)) msg)
               (chat_id msg) (msg_text msg) = None
             \<or> (\<exists>r. findLearnedResponse (db_fault e FindLearnedResponse)
                      (learn_if_admin e (storeMessage (db_fault e StoreMessage) (now e) db (chat_id msg)
                           (from_id msg) (msg_text msg) (message_id msg)) msg)
                      (chat_id msg) (msg_text msg) = Some r
                    \<and> lr_confidence r \<le> 7 / 10))"
    then have eq: "handleGroupMessage e db ai msg =
            prepend_action (SendChatAction (chat_id msg))
              (generateAIResponse e
                 (learn_if_admin e (storeMessage (db_fault e StoreMessage) (now e) db (chat_id msg) (from_id msg)
                      (msg_text msg) (message_id msg)) msg)
                 ai msg grp)"
      by (intro handleGroupMessage_without_trust) simp_all
    show "handleGroupMessage e db ai msg =
            prepend_action (SendChatAction (chat_id msg))
              (generateAIResponse e
                 (learn_if_admin e (storeMessage (db_fault e StoreMessage) (now e) db (chat_id msg) (from_id msg)
                      (msg_text msg) (message_id msg)) msg)
                 ai msg grp)"
      by (rule eq)
    show "take 2 (out_actions (handleGroupMessage e db ai msg))
              = [SendChatAction (chat_id msg), ApiRequest (enhancedQuery (msg_text msg) (systemContext grp))]"
      unfolding eq by (rule take_2_prepend) (rule generateAIResponse_first_action)
  qed (use ind in simp_all)
qed

theorem pipeline_ignores_cache_witness:
  "getGroup (db_fault sample_env GetGroup) sample_db (chat_id (sample_message ''where is the map?''))
     = Some sample_group
   \<and> g_setup_complete sample_group \<and> \<not> g_paused sample_group
   \<and> shouldRespond sample_env (sample_message ''where is the map?'') sample_group
   \<and> chat_action_ok sample_env
   \<and> findLearnedResponse (db_fault sample_env FindLearnedResponse)
        (learn_if_admin sample_env
           (storeMessage (db_fault sample_env StoreMessage) (now sample_env) sample_db
              (chat_id (sample_message ''where is the map?'')) (from_id (sample_message ''where is the map?''))
              (msg_text (sample_message ''where is the map?'')) (message_id (sample_message ''where is the map?'')))
           (sample_message ''where is the map?''))
        (chat_id (sample_message ''where is the map?'')) (msg_text (sample_message ''where is the map?''))
      = None
   \<and> take 2 (out_actions (handleGroupMessage sample_env sample_db sample_ai
                 (sample_message ''where is the map?'')))
      = [SendChatAction (- 100), ApiRequest (enhancedQuery ''where is the map?'' (systemContext sample_group))]
   \<and> out_ai (handleGroupMessage sample_env sample_db sample_ai (sample_message ''where is the map?''))
      = sample_ai"
proof -
  let ?m = "sample_message ''where is the map?''"
  have g: "getGroup (db_fault sample_env GetGroup) sample_db (chat_id ?m) = Some sample_group"
    by code_simp
  have c: "g_setup_complete sample_group" "\<not> g_paused sample_group" "chat_action_ok sample_env"
    by (simp_all add: sample_group_def sample_env_def)
  have r: "shouldRespond sample_env ?m sample_group"
    by code_simp
  have f: "findLearnedResponse (db_fault sample_env FindLearnedResponse)
        (learn_if_admin sample_env
           (storeMessage (db_fault sample_env StoreMessage) (now sample_env) sample_db
              (chat_id ?m) (from_id ?m) (msg_text ?m) (message_id ?m)) ?m)
        (chat_id ?m) (msg_text ?m) = None"
    by code_simp
  have k: "chat_id ?m = - 100" "msg_text ?m = ''where is the map?''"
    by (simp_all add: sample_message_def)
  note t = pipeline_ignores_cache [where e = sample_env and db = sample_db and ai = sample_ai
      and ai' = sample_ai and msg = ?m and grp = sample_group]
  have a: "take 2 (out_actions (handleGroupMessage sample_env sample_db sample_ai ?m))
      = [SendChatAction (chat_id ?m), ApiRequest (enhancedQuery (msg_text ?m) (systemContext sample_group))]"
    using t g c r f by blast
  have b: "out_ai (handleGroupMessage sample_env sample_db sample_ai ?m) = sample_ai"
    using t by blast
  show ?thesis
    using g c r f a b unfolding k by blast
qed

text \<open>
  C3, as stated, fails.  The lookup finds no entry for \<open>where is the map?\<close>, the cache
  of the group holds a fresh answer to exactly that question, and the handler still
  calls the completion service and sends what it returns.
\<close>

theorem cache_not_consulted_counterexample:
  "findLearnedResponse no_faults sample_db (- 100) ''where is the map?'' = None
   \<and> getCachedResponse double_div (now sample_env) sample_ai (- 100) ''where is the map?'' = Some ''cached answer''
   \<and> filter is_request
        (out_actions (handleGroupMessage sample_env sample_db sample_ai (sample_message ''where is the map?'')))
      = [ApiRequest (enhancedQuery ''where is the map?'' (systemContext sample_group))]
   \<and> filter is_send
        (out_actions (handleGroupMessage sample_env sample_db sample_ai (sample_message ''where is the map?'')))
      = [SendMessage (- 100) ''fresh answer'' (Some 42)]"
proof -
  have lc: "toLowerCase ''Where is the map?'' = ''where is the map?''"
       "toLowerCase ''where is the map?'' = ''where is the map?''"
    by code_simp+
  have "getCachedResponse double_div (now sample_env) sample_ai (- 100) ''where is the map?'' = Some ''cached answer''"
    by (simp add: getCachedResponse_def sample_ai_def cacheResponse_def new_ai_service_def
          sample_env_def lc calculateSimilarity_double_same double_0_8_below_1 Let_def)
  moreover have "findLearnedResponse no_faults sample_db (- 100) ''where is the map?'' = None"
    by code_simp
  moreover have "filter is_request
        (out_actions (handleGroupMessage sample_env sample_db sample_ai (sample_message ''where is the map?'')))
      = [ApiRequest (enhancedQuery ''where is the map?'' (systemContext sample_group))]"
    by code_simp
  moreover have "filter is_send
        (out_actions (handleGroupMessage sample_env sample_db sample_ai (sample_message ''where is the map?'')))
      = [SendMessage (- 100) ''fresh answer'' (Some 42)]"
    by code_simp
  ultimately show ?thesis by blast
qed

section \<open>The completion service: time-out against malformed answer\<close>












section \<open>Teaching\<close>

lemma find_Some_mem: "find P xs = Some x \<Longrightarrow> x \<in> set xs \<and> P x"
  by (induction xs) (auto split: if_splits)

lemma find_None_all: "find P xs = None \<Longrightarrow> x \<in> set xs \<Longrightarrow> \<not> P x"
  by (induction xs) (auto split: if_splits)

lemma same_question_key: "same_question g q r = (kb_key r = (g, sql_lower q))"
  by (auto simp: same_question_def kb_key_def)


lemma addLearnedResponse_existing:
  "find (same_question g q) (learned_responses db) = Some existing \<Longrightarrow>
   addLearnedResponse fault tm db g q a s =
     (if fault 0 \<or> fault 1 then db
      else db\<lparr>learned_responses := map (overwrite (lr_id existing) a s) (learned_responses db)\<rparr>)"
  by (auto simp: addLearnedResponse_def overwrite_def)

lemma addLearnedResponse_new:
  "find (same_question g q) (learned_responses db) = None \<Longrightarrow>
   addLearnedResponse fault tm db g q a s =
     (if fault 0 \<or> fault 1 then db
      else db\<lparr>learned_responses := learned_responses db @
                [\<lparr>lr_id = Suc (learned_seq db), lr_group_id = g, lr_question = q,
                  lr_answer = a, lr_confidence = 1, lr_learned_from = s,
                  lr_usage_count = 0, lr_last_used = None, lr_created_at = tm\<rparr>],
              learned_seq := Suc (learned_seq db)\<rparr>)"
  by (auto simp: addLearnedResponse_def)

lemma overwrite_key [simp]: "kb_key (overwrite i a s r) = kb_key r"
  by (simp add: overwrite_def kb_key_def)

lemma overwrite_id [simp]: "lr_id (overwrite i a s r) = lr_id r"
  by (simp add: overwrite_def)

lemma map_key_overwrite: "map kb_key (map (overwrite i a s) rs) = map kb_key rs"
  by (induction rs) simp_all

lemma map_id_overwrite: "map lr_id (map (overwrite i a s) rs) = map lr_id rs"
  by (induction rs) simp_all

lemma addLearnedResponse_unique:
  assumes "kb_unique db"
  shows "kb_unique (addLearnedResponse fault tm db g q a s)"
proof (cases "find (same_question g q) (learned_responses db)")
  case None
  have "\<forall>r \<in> set (learned_responses db). kb_key r \<noteq> (g, sql_lower q)"
    using find_None_all [OF None] by (simp add: same_question_key)
  then have "(g, sql_lower q) \<notin> set (map kb_key (learned_responses db))"
    by force
  then show ?thesis
    using assms by (simp add: addLearnedResponse_new [OF None] kb_unique_def kb_key_def)
next
  case (Some existing)
  show ?thesis
    using assms
    by (simp add: addLearnedResponse_existing [OF Some] kb_unique_def map_key_overwrite del: map_map)
qed

lemma teach_all_unique: "kb_unique db \<Longrightarrow> kb_unique (teach_all db ts)"
  by (induction ts arbitrary: db) (simp_all add: teach_step_def addLearnedResponse_unique)

lemma kb_unique_empty: "kb_unique empty_db"
  by (simp add: kb_unique_def empty_db_def)

lemma filter_distinct_key:
  "distinct (map f xs) \<Longrightarrow> x \<in> set xs \<Longrightarrow> filter (\<lambda>r. f r = f x) xs = [x]"
proof (induction xs)
  case Nil
  then show ?case by simp
next
  case (Cons y ys)
  show ?case
  proof (cases "x = y")
    case True
    from Cons.prems(1) have "f y \<notin> f ` set ys" by simp
    then have "\<forall>r \<in> set ys. f r \<noteq> f y" by (metis imageI)
    then have "filter (\<lambda>r. f r = f y) ys = []"
      by (simp add: filter_empty_conv)
    then show ?thesis using True by simp
  next
    case False
    then have "x \<in> set ys" using Cons.prems(2) by simp
    moreover have "f y \<noteq> f x"
    proof
      assume "f y = f x"
      then have "f y \<in> f ` set ys" using \<open>x \<in> set ys\<close> by (metis imageI)
      then show False using Cons.prems(1) by simp
    qed
    ultimately show ?thesis using Cons by simp
  qed
qed

lemma filter_distinct_le1: "distinct (map f xs) \<Longrightarrow> length (filter (\<lambda>r. f r = k) xs) \<le> 1"
proof (cases "\<exists>x \<in> set xs. f x = k")
  case True
  assume d: "distinct (map f xs)"
  from True obtain x where "x \<in> set xs" "f x = k" by blast
  then show ?thesis using filter_distinct_key [OF d, of x] by simp
next
  case False
  then have "filter (\<lambda>r. f r = k) xs = []" by (auto simp: filter_empty_conv)
  then show ?thesis by simp
qed

lemma entries_for_key: "entries_for db g q = filter (\<lambda>r. kb_key r = (g, sql_lower q)) (learned_responses db)"
  by (simp add: entries_for_def same_question_key [abs_def])

lemma entries_for_le1: "kb_unique db \<Longrightarrow> length (entries_for db g q) \<le> 1"
  unfolding entries_for_key kb_unique_def by (rule filter_distinct_le1)

lemma entries_for_find:
  assumes "kb_unique db" "find (same_question g q) (learned_responses db) = Some e"
  shows "entries_for db g q = [e]"
proof -
  have "e \<in> set (learned_responses db)" "kb_key e = (g, sql_lower q)"
    using find_Some_mem [OF assms(2)] by (simp_all add: same_question_key)
  then show ?thesis
    using filter_distinct_key [of kb_key "learned_responses db" e] assms(1)
    by (simp add: entries_for_key kb_unique_def)
qed

lemma entries_for_nonempty_find:
  "entries_for db g q \<noteq> [] \<Longrightarrow> \<exists>e. find (same_question g q) (learned_responses db) = Some e"
  by (cases "find (same_question g q) (learned_responses db)")
     (auto simp: entries_for_def filter_empty_conv dest: find_None_all)

lemma entries_for_overwrite:
  "filter (same_question g q) (map (overwrite i a s) rs) = map (overwrite i a s) (filter (same_question g q) rs)"
  by (induction rs) (simp_all add: same_question_key)

lemma teach_existing:
  assumes u: "kb_unique db" and ne: "entries_for db (t_group t) (t_question t) \<noteq> []"
    and f: "\<not> t_fault t 0" "\<not> t_fault t 1"
  shows "\<exists>old. entries_for db (t_group t) (t_question t) = [old]
           \<and> entries_for (teach_step db t) (t_group t) (t_question t)
               = [old\<lparr>lr_answer := t_answer t, lr_confidence := 1, lr_learned_from := t_source t\<rparr>]
           \<and> length (learned_responses (teach_step db t)) = length (learned_responses db)"
proof -
  obtain e where e: "find (same_question (t_group t) (t_question t)) (learned_responses db) = Some e"
    using entries_for_nonempty_find [OF ne] by blast
  have one: "entries_for db (t_group t) (t_question t) = [e]"
    by (rule entries_for_find [OF u e])
  have step: "teach_step db t = db\<lparr>learned_responses :=
      map (overwrite (lr_id e) (t_answer t) (t_source t)) (learned_responses db)\<rparr>"
    using f by (simp add: teach_step_def addLearnedResponse_existing [OF e])
  have "entries_for (teach_step db t) (t_group t) (t_question t)
        = map (overwrite (lr_id e) (t_answer t) (t_source t)) (entries_for db (t_group t) (t_question t))"
    by (simp add: step entries_for_def entries_for_overwrite)
  also have "\<dots> = [e\<lparr>lr_answer := t_answer t, lr_confidence := 1, lr_learned_from := t_source t\<rparr>]"
    by (simp add: one overwrite_def)
  finally show ?thesis using one by (simp add: step)
qed

lemma ids_fresh_empty: "ids_fresh empty_db"
  by (simp add: ids_fresh_def empty_db_def)

lemma addLearnedResponse_ids_fresh:
  assumes "ids_fresh db"
  shows "ids_fresh (addLearnedResponse fault tm db g q a s)"
proof (cases "find (same_question g q) (learned_responses db)")
  case None
  have "\<forall>r \<in> set (learned_responses db). lr_id r \<le> learned_seq db"
    using assms by (simp add: ids_fresh_def list_all_iff)
  then have "Suc (learned_seq db) \<notin> set (map lr_id (learned_responses db))"
    "\<forall>r \<in> set (learned_responses db). lr_id r \<le> Suc (learned_seq db)"
    by force+
  then show ?thesis
    using assms by (simp add: addLearnedResponse_new [OF None] ids_fresh_def list_all_iff)
next
  case (Some existing)
  show ?thesis
    using assms
    by (simp add: addLearnedResponse_existing [OF Some] ids_fresh_def map_id_overwrite list_all_iff
             del: map_map)
qed

lemma teach_all_ids_fresh: "ids_fresh db \<Longrightarrow> ids_fresh (teach_all db ts)"
  by (induction ts arbitrary: db) (simp_all add: teach_step_def addLearnedResponse_ids_fresh)

lemma overwrite_other_rows:
  assumes "distinct (map lr_id rs)" "e \<in> set rs" "r \<in> set rs" "r \<noteq> e"
  shows "overwrite (lr_id e) a s r = r"
proof -
  have "lr_id r \<noteq> lr_id e"
    using assms by (meson distinct_map inj_onD)
  then show ?thesis by (simp add: overwrite_def)
qed

lemma teach_new:
  assumes ne: "entries_for db (t_group t) (t_question t) = []"
    and f: "\<not> t_fault t 0" "\<not> t_fault t 1"
  shows "entries_for (teach_step db t) (t_group t) (t_question t)
           = [\<lparr>lr_id = Suc (learned_seq db), lr_group_id = t_group t, lr_question = t_question t,
               lr_answer = t_answer t, lr_confidence = 1, lr_learned_from = t_source t,
               lr_usage_count = 0, lr_last_used = None, lr_created_at = t_now t\<rparr>]
         \<and> length (learned_responses (teach_step db t)) = Suc (length (learned_responses db))"
proof -
  have n: "find (same_question (t_group t) (t_question t)) (learned_responses db) = None"
  proof (cases "find (same_question (t_group t) (t_question t)) (learned_responses db)")
    case None
    then show ?thesis .
  next
    case (Some e)
    then have "e \<in> set (entries_for db (t_group t) (t_question t))"
      using find_Some_mem [OF Some] by (simp add: entries_for_def)
    then show ?thesis using ne by simp
  qed
  show ?thesis
    using f ne
    by (simp add: teach_step_def addLearnedResponse_new [OF n] entries_for_def same_question_def)
qed

text \<open>
  C6, as amended.  In any knowledge base where no two entries share a group and a
  question folded by \<open>LOWER\<close> (the letters A-Z), any run of teach calls keeps it so, and
  so does any run from the empty one.  Teaching a question whose folded text has an
  entry leaves that single entry, with the new answer, confidence 1 (whatever it was)
  and the new source, and adds no row; teaching one that has none adds one row with
  confidence 1.
\<close>

theorem teach_keeps_one_entry_per_question:
  assumes "kb_unique db"
  shows "kb_unique (teach_all db ts)
   \<and> kb_unique (teach_all empty_db ts)
   \<and> length (entries_for (teach_all db ts) g q) \<le> 1
   \<and> (entries_for db (t_group t) (t_question t) \<noteq> [] \<and> \<not> t_fault t 0 \<and> \<not> t_fault t 1
      \<longrightarrow> (\<exists>old. entries_for db (t_group t) (t_question t) = [old]
             \<and> entries_for (teach_step db t) (t_group t) (t_question t)
                 = [old\<lparr>lr_answer := t_answer t, lr_confidence := 1, lr_learned_from := t_source t\<rparr>]
             \<and> length (learned_responses (teach_step db t)) = length (learned_responses db)))
   \<and> (entries_for db (t_group t) (t_question t) = [] \<and> \<not> t_fault t 0 \<and> \<not> t_fault t 1
      \<longrightarrow> entries_for (teach_step db t) (t_group t) (t_question t)
            = [\<lparr>lr_id = Suc (learned_seq db), lr_group_id = t_group t, lr_question = t_question t,
                lr_answer = t_answer t, lr_confidence = 1, lr_learned_from = t_source t,
                lr_usage_count = 0, lr_last_used = None, lr_created_at = t_now t\<rparr>]
          \<and> length (learned_responses (teach_step db t)) = Suc (length (learned_responses db)))"
proof -
  have u: "kb_unique (teach_all db ts)"
    by (rule teach_all_unique [OF assms])
  have e: "kb_unique (teach_all empty_db ts)"
    by (rule teach_all_unique [OF kb_unique_empty])
  show ?thesis
    using u e entries_for_le1 [OF u] teach_existing [OF assms] teach_new by blast
qed

lemma sample_db_unique: "kb_unique sample_db"
  by code_simp

lemma sample_ip_entries:
  "entries_for sample_db (t_group sample_teach_ip) (t_question sample_teach_ip) = [entry_ip]"
  by code_simp

theorem teach_keeps_one_entry_per_question_witness:
  "kb_unique sample_db
   \<and> entries_for sample_db (t_group sample_teach_ip) (t_question sample_teach_ip) = [entry_ip]
   \<and> lr_confidence entry_ip = 6 / 10
   \<and> \<not> t_fault sample_teach_ip 0 \<and> \<not> t_fault sample_teach_ip 1
   \<and> entries_for (teach_step sample_db sample_teach_ip) (t_group sample_teach_ip) (t_question sample_teach_ip)
      = [\<lparr>lr_id = 2, lr_group_id = - 100, lr_question = ''server ip?'',
          lr_answer = ''See the pinned message'', lr_confidence = 1, lr_learned_from = ''manual'',
          lr_usage_count = 0, lr_last_used = None, lr_created_at = 200\<rparr>]
   \<and> length (learned_responses (teach_step sample_db sample_teach_ip)) = length (learned_responses sample_db)
   \<and> kb_unique (teach_all sample_db [sample_teach_ip, sample_teach])"
proof -
  have f: "\<not> t_fault sample_teach_ip 0" "\<not> t_fault sample_teach_ip 1"
    by (simp_all add: sample_teach_ip_def no_faults_def)
  have ne: "entries_for sample_db (t_group sample_teach_ip) (t_question sample_teach_ip) \<noteq> []"
    by (subst sample_ip_entries) simp
  note t = teach_keeps_one_entry_per_question [OF sample_db_unique,
      where t = sample_teach_ip and ts = "[sample_teach_ip, sample_teach]"]
  obtain old where old:
    "entries_for sample_db (t_group sample_teach_ip) (t_question sample_teach_ip) = [old]"
    "entries_for (teach_step sample_db sample_teach_ip) (t_group sample_teach_ip) (t_question sample_teach_ip)
      = [old\<lparr>lr_answer := t_answer sample_teach_ip, lr_confidence := 1,
              lr_learned_from := t_source sample_teach_ip\<rparr>]"
    "length (learned_responses (teach_step sample_db sample_teach_ip)) = length (learned_responses sample_db)"
    using t ne f by blast
  have u: "kb_unique (teach_all sample_db [sample_teach_ip, sample_teach])"
    using t by blast
  have "old = entry_ip"
    using old(1) unfolding sample_ip_entries by simp
  then have n: "entries_for (teach_step sample_db sample_teach_ip) (t_group sample_teach_ip)
        (t_question sample_teach_ip)
      = [\<lparr>lr_id = 2, lr_group_id = - 100, lr_question = ''server ip?'',
          lr_answer = ''See the pinned message'', lr_confidence = 1, lr_learned_from = ''manual'',
          lr_usage_count = 0, lr_last_used = None, lr_created_at = 200\<rparr>]"
    using old(2) by (simp add: entry_ip_def sample_teach_ip_def)
  have c: "lr_confidence entry_ip = 6 / 10"
    by (simp add: entry_ip_def)
  show ?thesis
    using sample_db_unique sample_ip_entries c f n old(3) u by blast
qed

text \<open>
  C6, as stated, fails.  Two questions that differ only in the case of the letter
  U+00C9 are the same text once case is set aside (\<open>toLowerCase\<close> makes them equal), but
  \<open>LOWER\<close> leaves both as they are: teaching the second adds a second entry beside the
  first, which keeps its answer.
\<close>

theorem teach_accented_case_counterexample:
  "t_group sample_teach_capital = t_group sample_teach_small
   \<and> toLowerCase (t_question sample_teach_capital) = toLowerCase (t_question sample_teach_small)
   \<and> sql_lower (t_question sample_teach_capital) \<noteq> sql_lower (t_question sample_teach_small)
   \<and> map lr_question (learned_responses (teach_all empty_db [sample_teach_capital, sample_teach_small]))
      = [CHR 0xC9 # ''cole?'', CHR 0xE9 # ''cole?'']
   \<and> map lr_answer (learned_responses (teach_all empty_db [sample_teach_capital, sample_teach_small]))
      = [''Rue Haute 1'', ''Rue Basse 2'']"
  by code_simp

text \<open>
  C9.  When the question has an entry, \<open>addLearnedResponse\<close> changes at most the answer,
  the confidence and the source of the rows with that entry's id: every row keeps its
  id, usage counter, creation time, last-used time, question and group, no row is added
  or removed, and the rest of the database is as before.
\<close>

theorem teach_existing_changes_three_fields:
  assumes "find (same_question g q) (learned_responses db) = Some existing"
  shows "map lr_id (learned_responses (addLearnedResponse fault tm db g q a s)) = map lr_id (learned_responses db)
       \<and> map lr_usage_count (learned_responses (addLearnedResponse fault tm db g q a s))
           = map lr_usage_count (learned_responses db)
       \<and> map lr_created_at (learned_responses (addLearnedResponse fault tm db g q a s))
           = map lr_created_at (learned_responses db)
       \<and> map lr_last_used (learned_responses (addLearnedResponse fault tm db g q a s))
           = map lr_last_used (learned_responses db)
       \<and> map lr_question (learned_responses (addLearnedResponse fault tm db g q a s))
           = map lr_question (learned_responses db)
       \<and> map lr_group_id (learned_responses (addLearnedResponse fault tm db g q a s))
           = map lr_group_id (learned_responses db)
       \<and> list_all2 (\<lambda>r r'. r' = r \<or> (lr_id r = lr_id existing
                       \<and> r' = r\<lparr>lr_answer := a, lr_confidence := 1, lr_learned_from := s\<rparr>))
            (learned_responses db) (learned_responses (addLearnedResponse fault tm db g q a s))
       \<and> addLearnedResponse fault tm db g q a s
           = db\<lparr>learned_responses := learned_responses (addLearnedResponse fault tm db g q a s)\<rparr>"
proof -
  have m: "map f (map (overwrite i a s) rs) = map f rs"
    if "\<And>r. f (overwrite i a s r) = f r" for f :: "learned_response \<Rightarrow> 'b" and i rs
    using that by (induction rs) simp_all
  have l: "list_all2 (\<lambda>r r'. r' = r \<or> (lr_id r = i
                       \<and> r' = r\<lparr>lr_answer := a, lr_confidence := 1, lr_learned_from := s\<rparr>))
            rs (map (overwrite i a s) rs)" for i rs
    by (induction rs) (simp_all add: overwrite_def)
  have r: "list_all2 (\<lambda>r r'. r' = r \<or> (lr_id r = i
                       \<and> r' = r\<lparr>lr_answer := a, lr_confidence := 1, lr_learned_from := s\<rparr>)) rs rs" for i rs
    by (induction rs) simp_all
  show ?thesis
    unfolding addLearnedResponse_existing [OF assms]
    by (simp add: m l r overwrite_def)
qed

theorem teach_existing_changes_three_fields_witness:
  "find (same_question (- 100) ''WHAT ARE THE RULES?'') (learned_responses sample_db) = Some entry_rules
   \<and> map lr_id (learned_responses (teach_step sample_db sample_teach)) = [1, 2]
   \<and> map lr_usage_count (learned_responses (teach_step sample_db sample_teach)) = [3, 0]
   \<and> map lr_created_at (learned_responses (teach_step sample_db sample_teach)) = [100, 200]
   \<and> map lr_answer (learned_responses (teach_step sample_db sample_teach)) = [''Ask an admin'', ''10.0.0.1'']"
proof -
  have f: "find (same_question (- 100) ''WHAT ARE THE RULES?'') (learned_responses sample_db) = Some entry_rules"
    by code_simp
  have s: "teach_step sample_db sample_teach
           = addLearnedResponse no_faults 300 sample_db (- 100) ''WHAT ARE THE RULES?'' ''Ask an admin'' ''admin''"
    by (simp add: teach_step_def sample_teach_def)
  have rows: "learned_responses sample_db = [entry_rules, entry_ip]"
    by (simp add: sample_db_def)
  have a: "map lr_answer (learned_responses (teach_step sample_db sample_teach)) = [''Ask an admin'', ''10.0.0.1'']"
    by code_simp
  show ?thesis
    using teach_existing_changes_three_fields [OF f, of no_faults 300 "''Ask an admin''" "''admin''"] f a
    by (simp add: s rows entry_rules_def entry_ip_def)
qed

section \<open>Statistics\<close>

lemma getGroupStats_try_fault:
  assumes "k < 7" "fault k"
  shows "\<exists>j. getGroupStats_try rp fault db g = Inl (SqlError j)"
proof -
  from assms(1) have "k = 0 \<or> k = 1 \<or> k = 2 \<or> k = 3 \<or> k = 4 \<or> k = 5 \<or> k = 6"
    by arith
  with assms(2) have "fault 0 \<or> fault 1 \<or> fault 2 \<or> fault 3 \<or> fault 4 \<or> fault 5 \<or> fault 6"
    by auto
  then show ?thesis
    by (auto simp: getGroupStats_try_def db_query_def Let_def)
qed

lemma getGroupStats_try_ok:
  assumes "\<forall>k<7. \<not> fault k"
  shows "getGroupStats_try rp fault db g =
     Inr \<lparr>totalMessages = count_where (\<lambda>m. m_group_id m = g) (messages db),
          botResponses = count_where (\<lambda>i. i_group_id i = g) (interactions db),
          learnedResponses = count_where (\<lambda>r. lr_group_id r = g) (learned_responses db),
          activeUsers = length (remdups (map us_user_id (filter (\<lambda>u. us_group_id u = g) (user_stats db)))),
          accuracy = (if count_where (\<lambda>i. i_group_id i = g \<and> i_feedback i \<noteq> 0) (interactions db) > 0
                      then rp (count_where (\<lambda>i. i_group_id i = g \<and> i_feedback i = 1) (interactions db))
                              (count_where (\<lambda>i. i_group_id i = g \<and> i_feedback i \<noteq> 0) (interactions db))
                      else 0),
          topTopics = map (\<lambda>k. (k_keyword k, k_frequency k))
                        (take 5 (sort_key (\<lambda>k. - int (k_frequency k))
                           (filter (\<lambda>k. k_group_id k = g) (keyword_rows db))))\<rparr>"
proof -
  have "\<not> fault 0" "\<not> fault 1" "\<not> fault 2" "\<not> fault 3" "\<not> fault 4" "\<not> fault 5" "\<not> fault 6"
    using assms by simp_all
  then show ?thesis
    by (simp add: getGroupStats_try_def db_query_def Let_def)
qed

lemma getGroupStats_accuracy_zero:
  assumes "count_where (\<lambda>i. i_group_id i = g \<and> i_feedback i \<noteq> 0) (interactions db) = 0"
  shows "accuracy (getGroupStats rp fault db g) = 0"
proof (cases "\<forall>k<7. \<not> fault k")
  case True
  show ?thesis
    using assms by (simp add: getGroupStats_def getGroupStats_try_ok [OF True])
next
  case False
  then obtain k where "k < 7" "fault k" by blast
  then obtain j where "getGroupStats_try rp fault db g = Inl (SqlError j)"
    using getGroupStats_try_fault by blast
  then show ?thesis by (simp add: getGroupStats_def zero_stats_def)
qed

text \<open>
  C10.  \<open>getGroupStats\<close> always returns a statistics record.  With no interaction of
  the group carrying feedback the division is not made and the accuracy is 0; when any
  of its seven statements throws, the all-zero record is returned.
\<close>

theorem getGroupStats_guarded:
  "(count_where (\<lambda>i. i_group_id i = g \<and> i_feedback i \<noteq> 0) (interactions db) = 0
      \<longrightarrow> accuracy (getGroupStats rp fault db g) = 0)
   \<and> ((\<exists>k<7. fault k) \<longrightarrow> getGroupStats rp fault db g = zero_stats)
   \<and> (getGroupStats_try rp fault db g = Inl err \<longrightarrow> getGroupStats rp fault db g = zero_stats)
   \<and> ((\<forall>k<7. \<not> fault k) \<longrightarrow> getGroupStats_try rp fault db g = Inr (getGroupStats rp fault db g))"
proof (intro conjI impI)
  assume "count_where (\<lambda>i. i_group_id i = g \<and> i_feedback i \<noteq> 0) (interactions db) = 0"
  then show "accuracy (getGroupStats rp fault db g) = 0" by (rule getGroupStats_accuracy_zero)
next
  assume "\<exists>k<7. fault k"
  then obtain k j where "k < 7" "fault k" "getGroupStats_try rp fault db g = Inl (SqlError j)"
    using getGroupStats_try_fault by blast
  then show "getGroupStats rp fault db g = zero_stats" by (simp add: getGroupStats_def)
next
  assume "getGroupStats_try rp fault db g = Inl err"
  then show "getGroupStats rp fault db g = zero_stats" by (simp add: getGroupStats_def)
next
  assume ok: "\<forall>k<7. \<not> fault k"
  show "getGroupStats_try rp fault db g = Inr (getGroupStats rp fault db g)"
    by (simp add: getGroupStats_def getGroupStats_try_ok [OF ok])
qed

theorem getGroupStats_guarded_witness:
  "count_where (\<lambda>i. i_group_id i = - 100 \<and> i_feedback i \<noteq> 0) (interactions sample_db) = 0
   \<and> accuracy (getGroupStats (\<lambda>good total. 100) no_faults sample_db (- 100)) = 0
   \<and> (3::nat) < 7 \<and> (\<lambda>k. k = 3) (3::nat)
   \<and> getGroupStats (\<lambda>good total. 100) (\<lambda>k. k = 3) sample_db (- 100) = zero_stats
   \<and> getGroupStats_try (\<lambda>good total. 100) (\<lambda>k. k = 3) sample_db (- 100) = Inl (SqlError 3)
   \<and> getGroupStats_try (\<lambda>good total. 100) no_faults sample_db (- 100)
       = Inr (getGroupStats (\<lambda>good total. 100) no_faults sample_db (- 100))
   \<and> learnedResponses (getGroupStats (\<lambda>good total. 100) no_faults sample_db (- 100)) = 2"
proof -
  have c: "count_where (\<lambda>i. i_group_id i = - 100 \<and> i_feedback i \<noteq> 0) (interactions sample_db) = 0"
    by (simp add: count_where_def sample_db_def empty_db_def)
  have f: "\<exists>k<7. (\<lambda>k::nat. k = 3) k" by auto
  have t: "getGroupStats_try (\<lambda>good total. 100) (\<lambda>k. k = 3) sample_db (- 100) = Inl (SqlError 3)"
    by (simp add: getGroupStats_try_def db_query_def)
  have n: "\<forall>k<7. \<not> no_faults k" by (simp add: no_faults_def)
  have l: "getGroupStats_try (\<lambda>good total. 100) no_faults sample_db (- 100)
           = Inr (getGroupStats (\<lambda>good total. 100) no_faults sample_db (- 100))"
    using getGroupStats_guarded [of "- 100" sample_db "\<lambda>good total. 100" no_faults] n by blast
  have l2: "learnedResponses (getGroupStats (\<lambda>good total. 100) no_faults sample_db (- 100)) = 2"
    by (simp add: getGroupStats_def getGroupStats_try_ok [OF n] count_where_def sample_db_def
          entry_rules_def entry_ip_def)
  have a: "accuracy (getGroupStats (\<lambda>good total. 100) no_faults sample_db (- 100)) = 0"
    using getGroupStats_guarded [of "- 100" sample_db "\<lambda>good total. 100" no_faults] c by blast
  have z: "getGroupStats (\<lambda>good total. 100) (\<lambda>k. k = 3) sample_db (- 100) = zero_stats"
    using getGroupStats_guarded [of "- 100" sample_db "\<lambda>good total. 100" "\<lambda>k. k = 3"] f by blast
  show ?thesis using c a z t l l2 by simp
qed

section \<open>The setup dialogue and the database\<close>

lemma updateGroupConfig_setup_states:
  "setup_states (updateGroupConfig fault db g config) = setup_states db"
  by (simp add: updateGroupConfig_def)

lemma handleSetupFlow_setup_states:
  "setup_states (so_db (handleSetupFlow e ss db msg)) = setup_states db"
  by (simp add: handleSetupFlow_def send_prompt_def Let_def updateGroupConfig_setup_states
        split: option.splits)

lemma handleCallbackQuery_setup_states:
  "handleCallbackQuery p e ss db q = Some r \<Longrightarrow> setup_states (so_db r) = setup_states db"
  by (auto simp: handleCallbackQuery_def Let_def split: if_splits)

text \<open>
  C7, as amended.  No transition of the dialogue writes the \<open>setup_states\<close> table: the
  step and the answers collected so far are kept in the in-memory map only.  The first
  three steps store the answer and move the session on in that map; the last step
  writes the collected data to the group's row and removes the session.
\<close>

theorem setup_transitions_stay_in_memory:
  "setup_states (so_db (handleSetupFlow e ss db msg)) = setup_states db
   \<and> (handleCallbackQuery p e ss db q = Some r \<longrightarrow> setup_states (so_db r) = setup_states db)
   \<and> (ss (NumKey (from_id msg)) = Some st \<and> st_step st = ''purpose'' \<longrightarrow>
        so_sessions (handleSetupFlow e ss db msg) (NumKey (from_id msg))
          = Some (st\<lparr>st_data := (st_data st)\<lparr>sd_purpose := Some (msg_text msg)\<rparr>, st_step := ''tone''\<rparr>)
        \<and> so_db (handleSetupFlow e ss db msg) = db)
   \<and> (ss (NumKey (from_id msg)) = Some st \<and> st_step st = ''tone'' \<longrightarrow>
        so_sessions (handleSetupFlow e ss db msg) (NumKey (from_id msg))
          = Some (st\<lparr>st_data := (st_data st)\<lparr>sd_tone := Some (msg_text msg)\<rparr>, st_step := ''rules''\<rparr>)
        \<and> so_db (handleSetupFlow e ss db msg) = db)
   \<and> (ss (NumKey (from_id msg)) = Some st \<and> st_step st = ''rules'' \<longrightarrow>
        so_sessions (handleSetupFlow e ss db msg) (NumKey (from_id msg))
          = Some (st\<lparr>st_data := (st_data st)
                         \<lparr>sd_rules := Some (if toLowerCase (msg_text msg) \<noteq> ''none''
                                             then map trim (split_on CHR '','' (msg_text msg)) else [])\<rparr>,
                     st_step := ''triggers''\<rparr>)
        \<and> so_db (handleSetupFlow e ss db msg) = db)
   \<and> (ss (NumKey (from_id msg)) = Some st \<and> st_step st = ''triggers'' \<and> st_groupId st = Some g
        \<and> sd_rules (st_data st) \<noteq> None \<and> sent_message_id e \<noteq> None \<longrightarrow>
        so_sessions (handleSetupFlow e ss db msg) (NumKey (from_id msg)) = None
        \<and> so_db (handleSetupFlow e ss db msg)
            = updateGroupConfig (db_fault e UpdateGroupConfig) db g
                ((st_data st)\<lparr>sd_triggers := Some (if toLowerCase (msg_text msg) = ''all'' then [''all'']
                                                    else map trim (split_on CHR '','' (msg_text msg)))\<rparr>))"
proof (intro conjI impI)
  show "setup_states (so_db (handleSetupFlow e ss db msg)) = setup_states db"
    by (rule handleSetupFlow_setup_states)
  show "setup_states (so_db r) = setup_states db" if "handleCallbackQuery p e ss db q = Some r"
    using that by (rule handleCallbackQuery_setup_states)
qed (auto simp: handleSetupFlow_def send_prompt_def Let_def)

text \<open>
  C7, as stated, fails.  User 7 answers the first question: the session in memory moves
  to the step \<open>tone\<close> with the purpose stored, nothing throws, and the \<open>setup_states\<close>
  table is still empty, so the session is not in durable storage.
\<close>

theorem setup_step_not_persisted_counterexample:
  "sample_sessions (NumKey 7) = Some sample_session
   \<and> so_sessions (handleSetupFlow sample_env sample_sessions sample_db (sample_message ''Gaming community''))
        (NumKey 7)
      = Some \<lparr>st_step = ''tone'', st_groupId = Some (- 100),
              st_data = \<lparr>sd_purpose = Some ''Gaming community'', sd_tone = None, sd_rules = None,
                         sd_triggers = None\<rparr>\<rparr>
   \<and> so_threw (handleSetupFlow sample_env sample_sessions sample_db (sample_message ''Gaming community'')) = False
   \<and> setup_states (so_db (handleSetupFlow sample_env sample_sessions sample_db
        (sample_message ''Gaming community''))) = []
   \<and> \<not> session_persisted
         (so_db (handleSetupFlow sample_env sample_sessions sample_db (sample_message ''Gaming community''))) 7
         \<lparr>st_step = ''tone'', st_groupId = Some (- 100),
          st_data = \<lparr>sd_purpose = Some ''Gaming community'', sd_tone = None, sd_rules = None,
                     sd_triggers = None\<rparr>\<rparr>"
  by (simp add: handleSetupFlow_def send_prompt_def Let_def sample_sessions_def sample_session_def
        sample_env_def sample_db_def empty_db_def sample_message_def session_persisted_def
        getSetupState_def no_faults_def)

theorem setup_transitions_stay_in_memory_witness:
  "sample_sessions (NumKey 7) = Some sample_session
   \<and> st_step sample_session = ''purpose''
   \<and> so_sessions (handleSetupFlow sample_env sample_sessions sample_db (sample_message ''Gaming community''))
        (NumKey 7)
      = Some (sample_session\<lparr>st_data := (st_data sample_session)\<lparr>sd_purpose := Some ''Gaming community''\<rparr>,
                             st_step := ''tone''\<rparr>)
   \<and> so_db (handleSetupFlow sample_env sample_sessions sample_db (sample_message ''Gaming community''))
      = sample_db
   \<and> so_sessions (handleSetupFlow sample_env [NumKey 7 \<mapsto> sample_session\<lparr>st_step := ''tone''\<rparr>]
          sample_db (sample_message ''Friendly'')) (NumKey 7)
      = Some (sample_session\<lparr>st_data := (st_data sample_session)\<lparr>sd_tone := Some ''Friendly''\<rparr>,
                             st_step := ''rules''\<rparr>)
   \<and> so_sessions (handleSetupFlow sample_env [NumKey 7 \<mapsto> sample_session\<lparr>st_step := ''rules''\<rparr>]
          sample_db (sample_message ''No spam, be respectful'')) (NumKey 7)
      = Some (sample_session\<lparr>st_data := (st_data sample_session)
                                           \<lparr>sd_rules := Some [''No spam'', ''be respectful'']\<rparr>,
                             st_step := ''triggers''\<rparr>)
   \<and> so_sessions (handleSetupFlow sample_env
          [NumKey 7 \<mapsto> sample_session\<lparr>st_step := ''triggers'',
                                            st_data := (st_data sample_session)\<lparr>sd_rules := Some []\<rparr>\<rparr>]
          sample_db (sample_message ''all'')) (NumKey 7) = None
   \<and> so_db (handleSetupFlow sample_env
          [NumKey 7 \<mapsto> sample_session\<lparr>st_step := ''triggers'',
                                            st_data := (st_data sample_session)\<lparr>sd_rules := Some []\<rparr>\<rparr>]
          sample_db (sample_message ''all''))
      = updateGroupConfig no_faults sample_db (- 100)
          \<lparr>sd_purpose = None, sd_tone = None, sd_rules = Some [], sd_triggers = Some [''all'']\<rparr>
   \<and> map_option (\<lambda>r. (so_sessions r (StrKey ''7''), so_sent r, so_threw r))
        (handleCallbackQuery (\<lambda>s. Some (- 100)) sample_env Map.empty sample_db
           \<lparr>cq_data = ''setup_7_-100'', cq_from_id = 7\<rparr>)
      = Some (Some sample_session, [Redirecting, AskPurpose], False)
   \<and> map_option (\<lambda>r. setup_states (so_db r))
        (handleCallbackQuery (\<lambda>s. Some (- 100)) sample_env Map.empty sample_db
           \<lparr>cq_data = ''setup_7_-100'', cq_from_id = 7\<rparr>)
      = Some (setup_states sample_db)"
proof -
  let ?T = "sample_session\<lparr>st_step := ''tone''\<rparr>"
  let ?R = "sample_session\<lparr>st_step := ''rules''\<rparr>"
  let ?G = "sample_session\<lparr>st_step := ''triggers'',
                            st_data := (st_data sample_session)\<lparr>sd_rules := Some []\<rparr>\<rparr>"
  have k: "from_id (sample_message t) = 7" "msg_text (sample_message t) = t" for t
    by (simp_all add: sample_message_def)
  have h: "sample_sessions (NumKey 7) = Some sample_session" "st_step sample_session = ''purpose''"
    by (simp_all add: sample_sessions_def sample_session_def)
  have lc: "toLowerCase ''No spam, be respectful'' \<noteq> ''none''" "toLowerCase ''all'' = ''all''"
    "map trim (split_on CHR '','' ''No spam, be respectful'') = [''No spam'', ''be respectful'']"
    by code_simp+
  have p: "so_sessions (handleSetupFlow sample_env sample_sessions sample_db
               (sample_message ''Gaming community'')) (NumKey 7)
      = Some (sample_session\<lparr>st_data := (st_data sample_session)\<lparr>sd_purpose := Some ''Gaming community''\<rparr>,
                             st_step := ''tone''\<rparr>)
     \<and> so_db (handleSetupFlow sample_env sample_sessions sample_db (sample_message ''Gaming community''))
      = sample_db"
    using setup_transitions_stay_in_memory [where ss = sample_sessions
        and msg = "sample_message ''Gaming community''" and st = sample_session
        and e = sample_env and db = sample_db] h
    unfolding k by blast
  have t: "so_sessions (handleSetupFlow sample_env [NumKey 7 \<mapsto> ?T] sample_db (sample_message ''Friendly''))
             (NumKey 7)
      = Some (?T\<lparr>st_data := (st_data ?T)\<lparr>sd_tone := Some ''Friendly''\<rparr>, st_step := ''rules''\<rparr>)"
    using setup_transitions_stay_in_memory [where ss = "[NumKey 7 \<mapsto> ?T]"
        and msg = "sample_message ''Friendly''" and st = ?T and e = sample_env and db = sample_db]
    unfolding k by simp
  have r: "so_sessions (handleSetupFlow sample_env [NumKey 7 \<mapsto> ?R] sample_db
             (sample_message ''No spam, be respectful'')) (NumKey 7)
      = Some (?R\<lparr>st_data := (st_data ?R)
                     \<lparr>sd_rules := Some (if toLowerCase ''No spam, be respectful'' \<noteq> ''none''
                                         then map trim (split_on CHR '','' ''No spam, be respectful'') else [])\<rparr>,
                st_step := ''triggers''\<rparr>)"
    using setup_transitions_stay_in_memory [where ss = "[NumKey 7 \<mapsto> ?R]"
        and msg = "sample_message ''No spam, be respectful''" and st = ?R and e = sample_env
        and db = sample_db]
    unfolding k by simp
  have g: "so_sessions (handleSetupFlow sample_env [NumKey 7 \<mapsto> ?G] sample_db (sample_message ''all''))
             (NumKey 7) = None
     \<and> so_db (handleSetupFlow sample_env [NumKey 7 \<mapsto> ?G] sample_db (sample_message ''all''))
         = updateGroupConfig (db_fault sample_env UpdateGroupConfig) sample_db (- 100)
             ((st_data ?G)\<lparr>sd_triggers := Some (if toLowerCase ''all'' = ''all'' then [''all'']
                                                 else map trim (split_on CHR '','' ''all''))\<rparr>)"
    using setup_transitions_stay_in_memory [where ss = "[NumKey 7 \<mapsto> ?G]"
        and msg = "sample_message ''all''" and st = ?G and e = sample_env and db = sample_db
        and g = "- 100"]
    unfolding k by (simp add: sample_session_def sample_env_def)
  have r2: "so_sessions (handleSetupFlow sample_env [NumKey 7 \<mapsto> ?R] sample_db
             (sample_message ''No spam, be respectful'')) (NumKey 7)
      = Some (?R\<lparr>st_data := (st_data ?R)\<lparr>sd_rules := Some [''No spam'', ''be respectful'']\<rparr>,
                st_step := ''triggers''\<rparr>)"
    using r lc(1) unfolding lc(3) by simp
  let ?c = "handleCallbackQuery (\<lambda>s. Some (- 100)) sample_env Map.empty sample_db
               \<lparr>cq_data = ''setup_7_-100'', cq_from_id = 7\<rparr>"
  have c1: "map_option (\<lambda>r. (so_sessions r (StrKey ''7''), so_sent r, so_threw r)) ?c
            = Some (Some sample_session, [Redirecting, AskPurpose], False)"
    by code_simp
  then obtain r0 where r0: "?c = Some r0" by (cases ?c) simp_all
  have "setup_states (so_db r0) = setup_states sample_db"
    using setup_transitions_stay_in_memory [where p = "\<lambda>s. Some (- 100)" and e = sample_env
        and ss = Map.empty and db = sample_db and q = "\<lparr>cq_data = ''setup_7_-100'', cq_from_id = 7\<rparr>"
        and r = r0] r0
    by blast
  then have c2: "map_option (\<lambda>r. setup_states (so_db r)) ?c = Some (setup_states sample_db)"
    by (simp add: r0)
  have main: "sample_sessions (NumKey 7) = Some sample_session
   \<and> st_step sample_session = ''purpose''
   \<and> so_sessions (handleSetupFlow sample_env sample_sessions sample_db (sample_message ''Gaming community''))
        (NumKey 7)
      = Some (sample_session\<lparr>st_data := (st_data sample_session)\<lparr>sd_purpose := Some ''Gaming community''\<rparr>,
                             st_step := ''tone''\<rparr>)
   \<and> so_db (handleSetupFlow sample_env sample_sessions sample_db (sample_message ''Gaming community''))
      = sample_db
   \<and> so_sessions (handleSetupFlow sample_env [NumKey 7 \<mapsto> ?T] sample_db (sample_message ''Friendly''))
        (NumKey 7)
      = Some (sample_session\<lparr>st_data := (st_data sample_session)\<lparr>sd_tone := Some ''Friendly''\<rparr>,
                             st_step := ''rules''\<rparr>)
   \<and> so_sessions (handleSetupFlow sample_env [NumKey 7 \<mapsto> ?R]
          sample_db (sample_message ''No spam, be respectful'')) (NumKey 7)
      = Some (sample_session\<lparr>st_data := (st_data sample_session)
                                           \<lparr>sd_rules := Some [''No spam'', ''be respectful'']\<rparr>,
                             st_step := ''triggers''\<rparr>)
   \<and> so_sessions (handleSetupFlow sample_env [NumKey 7 \<mapsto> ?G] sample_db (sample_message ''all''))
        (NumKey 7) = None
   \<and> so_db (handleSetupFlow sample_env [NumKey 7 \<mapsto> ?G] sample_db (sample_message ''all''))
      = updateGroupConfig no_faults sample_db (- 100)
          \<lparr>sd_purpose = None, sd_tone = None, sd_rules = Some [], sd_triggers = Some [''all'']\<rparr>"
    using h p t r2 g unfolding lc(2)
    by (simp add: sample_session_def sample_env_def)
  show ?thesis
    using main c1 c2 by blast
qed

end
